theory Spec2Isabelle
  imports Complex_Main "HOL-Library.Word"
begin

section \<open>Host-language values\<close>

text \<open>
  The generator of \<^verbatim>\<open>src/src/main.js\<close> is embedded with the following conventions.
  A JavaScript number is the rational it denotes. Integer-valued quantities (the canvas
  dimensions, the character count, sizes, loop counters, the results of
  \<^verbatim>\<open>Math.floor\<close>) are of type \<open>int\<close> and their arithmetic is exact, as binary64
  arithmetic is on integers below \<open>2^53\<close>. An operation whose result need not be an
  integer (\<^verbatim>\<open>Math.random()*(n - 60)\<close>, \<^verbatim>\<open>i + 0.2\<close>, \<^verbatim>\<open>widhtGap*(i + 0.2)\<close>, the literal
  \<^verbatim>\<open>0.2\<close>) is rounded to the nearest binary64 number by \<open>to_double\<close>; overflow to
  infinity and \<^verbatim>\<open>NaN\<close> are not modelled.
  Strings are lists of characters. The two sources of randomness are explicit
  streams: \<open>entropy\<close> yields the bytes of \<^verbatim>\<open>crypto.randomBytes\<close>, \<open>math_random\<close> the
  results of \<^verbatim>\<open>Math.random()\<close>; drawing a value shifts the stream.
  The rendering surface is the list of calls it has received, oldest first.
  An exception is a value of type \<open>error\<close>.
\<close>

type_synonym byte = "8 word"

datatype error = RangeError | TypeError | ImageError

subsection \<open>Binary64 rounding\<close>

text \<open>
  \<open>to_double x\<close> is the binary64 number nearest to \<open>x\<close>, ties going to the even
  significand (IEEE 754 round-to-nearest, the rounding of every ECMAScript arithmetic
  operation). \<open>exponent x\<close> is the \<open>e\<close> with \<open>2^e \<le> |x| < 2^(e+1)\<close>; the numbers
  representable near \<open>x\<close> are the multiples of \<open>quantum x\<close>, which is \<open>2^(e-52)\<close>, and
  \<open>2^-1074\<close> in the subnormal range.
\<close>

fun bit_length :: "nat \<Rightarrow> nat" where
  "bit_length n = (if n = 0 then 0 else Suc (bit_length (n div 2)))"

definition exponent :: "rat \<Rightarrow> int" where
  "exponent x =
     (if 1 \<le> \<bar>x\<bar> then int (bit_length (nat \<lfloor>\<bar>x\<bar>\<rfloor>)) - 1
      else - int (bit_length (nat (\<lceil>1 / \<bar>x\<bar>\<rceil> - 1))))"

definition round_half_even :: "rat \<Rightarrow> int" where
  "round_half_even y =
     (let f = \<lfloor>y\<rfloor>; d = y - of_int f
      in if d < 1 / 2 then f else if 1 / 2 < d then f + 1 else if even f then f else f + 1)"

definition emin :: int where
  "emin = - 1074"

definition quantum :: "rat \<Rightarrow> rat" where
  "quantum x = 2 powi (max (exponent x - 52) emin)"

definition to_double :: "rat \<Rightarrow> rat" where
  "to_double x = of_int (round_half_even (x / quantum x)) * quantum x"

subsection \<open>Randomness\<close>

definition randomBytes :: "int \<Rightarrow> (nat \<Rightarrow> byte) \<Rightarrow> error + (byte list \<times> (nat \<Rightarrow> byte))" where
  \<comment> \<open>\<^verbatim>\<open>crypto.randomBytes(size)\<close>: Node rejects a size outside \<open>0 .. 2^31 - 1\<close>.\<close>
  "randomBytes sz e =
     (if sz < 0 \<or> 2147483647 < sz then Inl RangeError
      else Inr (map e [0..<nat sz], \<lambda>i. e (i + nat sz)))"

definition Math_random :: "(nat \<Rightarrow> rat) \<Rightarrow> rat \<times> (nat \<Rightarrow> rat)" where
  "Math_random r = (r 0, \<lambda>i. r (Suc i))"

definition getRandom :: "int \<Rightarrow> (nat \<Rightarrow> rat) \<Rightarrow> int \<times> (nat \<Rightarrow> rat)" where
  \<comment> \<open>\<^verbatim>\<open>Math.floor(Math.random()*(n - 60)) + 30\<close>; the product is rounded\<close>
  "getRandom n r =
     (case Math_random r of (u, r') \<Rightarrow> (\<lfloor>to_double (u * of_int (n - 60))\<rfloor> + 30, r'))"

definition getRandom_of :: "int \<Rightarrow> rat \<Rightarrow> int" where
  \<comment> \<open>the result of \<open>getRandom n\<close> when \<^verbatim>\<open>Math.random()\<close> returns \<open>u\<close>\<close>
  "getRandom_of n u = \<lfloor>to_double (u * of_int (n - 60))\<rfloor> + 30"

definition unit_interval :: "(nat \<Rightarrow> rat) \<Rightarrow> bool" where
  \<comment> \<open>the contract of \<^verbatim>\<open>Math.random()\<close>: every result is a binary64 number in \<open>[0, 1)\<close>\<close>
  "unit_interval r = (\<forall>i. 0 \<le> r i \<and> r i < 1 \<and> to_double (r i) = r i)"

subsection \<open>Strings\<close>

definition hex_digit :: "nat \<Rightarrow> char" where
  "hex_digit d = ''0123456789abcdef'' ! d"

definition toString_hex :: "byte list \<Rightarrow> string" where
  \<comment> \<open>\<^verbatim>\<open>buffer.toString("hex")\<close>: two lower-case digits per byte, high nibble first\<close>
  "toString_hex bs = concat (map (\<lambda>b. [hex_digit (unat b div 16), hex_digit (unat b mod 16)]) bs)"

definition is_lower :: "char \<Rightarrow> bool" where
  "is_lower c = (c \<in> set ''abcdefghijklmnopqrstuvwxyz'')"

definition is_upper :: "char \<Rightarrow> bool" where
  "is_upper c = (c \<in> set ''ABCDEFGHIJKLMNOPQRSTUVWXYZ'')"

definition upper_of :: "char \<Rightarrow> char" where
  "upper_of c =
     (case map_of (zip ''abcdefghijklmnopqrstuvwxyz'' ''ABCDEFGHIJKLMNOPQRSTUVWXYZ'') c of
        None \<Rightarrow> c
      | Some u \<Rightarrow> u)"

definition toUpperCase :: "string \<Rightarrow> string" where
  \<comment> \<open>on the ASCII range, which is all a hex string holds\<close>
  "toUpperCase s = map upper_of s"

definition replace_non_letters :: "string \<Rightarrow> string" where
  \<comment> \<open>\<^verbatim>\<open>.replace(/[^a-z]/gi, "")\<close>: every character that is not a letter is deleted\<close>
  "replace_non_letters s = filter (\<lambda>c. is_lower c \<or> is_upper c) s"

definition substr0 :: "string \<Rightarrow> int \<Rightarrow> string" where
  \<comment> \<open>\<^verbatim>\<open>.substr(0, n)\<close>: at most \<open>n\<close> leading characters, none when \<open>n \<le> 0\<close>\<close>
  "substr0 s n = take (nat n) s"

definition char_at :: "string \<Rightarrow> nat \<Rightarrow> char option" where
  \<comment> \<open>\<^verbatim>\<open>s[i]\<close>: \<open>None\<close> is \<^verbatim>\<open>undefined\<close>\<close>
  "char_at s i = (if i < length s then Some (s ! i) else None)"

definition truthy_string :: "string \<Rightarrow> bool" where
  "truthy_string s = (s \<noteq> [])"

definition random_text :: "byte list \<Rightarrow> int \<Rightarrow> string" where
  \<comment> \<open>the chain of line 53-54 applied to the bytes drawn\<close>
  "random_text bytes n = substr0 (replace_non_letters (toUpperCase (toString_hex bytes))) n"

section \<open>Option groups\<close>

record captcha_options =
  captcha_text :: string
  captcha_characters :: int
  captcha_font :: string
  captcha_size :: int
  captcha_color :: string
  captcha_opacity :: rat

record trace_options =
  trace_color :: string
  trace_size :: int
  trace_opacity :: rat

record decoy_options =
  decoy_font :: string
  decoy_size :: int
  decoy_color :: string
  decoy_opacity :: rat

text \<open>The argument of a setter is a partial option group: a field is \<open>None\<close> when absent.\<close>

record set_captcha_options =
  set_text :: "string option"
  set_characters :: "int option"
  set_captcha_font :: "string option"
  set_captcha_size :: "int option"
  set_captcha_color :: "string option"
  set_captcha_opacity :: "rat option"

record set_trace_options =
  set_trace_color :: "string option"
  set_trace_size :: "int option"
  set_trace_opacity :: "rat option"

record set_decoy_options =
  set_decoy_font :: "string option"
  set_decoy_size :: "int option"
  set_decoy_color :: "string option"
  set_decoy_opacity :: "rat option"

definition override :: "'a \<Rightarrow> 'a option \<Rightarrow> 'a" where
  "override old new = (case new of None \<Rightarrow> old | Some v \<Rightarrow> v)"

text \<open>
  \<^verbatim>\<open>merge(target, source)\<close> of the deepmerge package builds a new object: a field of
  the source replaces the target's, every other field is kept.
\<close>

definition merge_captcha :: "captcha_options \<Rightarrow> set_captcha_options \<Rightarrow> captcha_options" where
  "merge_captcha c opts =
     \<lparr>captcha_text = override (captcha_text c) (set_text opts),
      captcha_characters = override (captcha_characters c) (set_characters opts),
      captcha_font = override (captcha_font c) (set_captcha_font opts),
      captcha_size = override (captcha_size c) (set_captcha_size opts),
      captcha_color = override (captcha_color c) (set_captcha_color opts),
      captcha_opacity = override (captcha_opacity c) (set_captcha_opacity opts)\<rparr>"

definition merge_trace :: "trace_options \<Rightarrow> set_trace_options \<Rightarrow> trace_options" where
  "merge_trace t opts =
     \<lparr>trace_color = override (trace_color t) (set_trace_color opts),
      trace_size = override (trace_size t) (set_trace_size opts),
      trace_opacity = override (trace_opacity t) (set_trace_opacity opts)\<rparr>"

definition merge_decoy :: "decoy_options \<Rightarrow> set_decoy_options \<Rightarrow> decoy_options" where
  "merge_decoy d opts =
     \<lparr>decoy_font = override (decoy_font d) (set_decoy_font opts),
      decoy_size = override (decoy_size d) (set_decoy_size opts),
      decoy_color = override (decoy_color d) (set_decoy_color opts),
      decoy_opacity = override (decoy_opacity d) (set_decoy_opacity opts)\<rparr>"

section \<open>The generator and the store\<close>

text \<open>
  The constructor assigns the module-level object \<^verbatim>\<open>defaultCaptchaOptions\<close> itself to
  \<^verbatim>\<open>this.captcha\<close> and then writes its \<^verbatim>\<open>text\<close> field, so captcha option groups live in
  a store and a generator holds a reference. No statement of the source writes a field
  of a trace or decoy group (the setters replace the whole group by a merged copy), so
  these are held by value. The three default groups come from \<^verbatim>\<open>./constants\<close>, which
  is not part of the sources: the default captcha group is whatever the store holds at
  \<open>defaultCaptchaOptions\<close>, the other two are parameters of the constructor.
\<close>

datatype image_ref = Path string | Buffer "byte list"

datatype image = Image nat

record world =
  captcha_heap :: "nat \<Rightarrow> captcha_options"
  next_ref :: nat
  entropy :: "nat \<Rightarrow> byte"
  math_random :: "nat \<Rightarrow> rat"

record generator =
  height :: int
  width :: int
  captcha :: nat
  trace :: trace_options
  decoy :: decoy_options
  background :: "image_ref option"

record constructor_options =
  opt_height :: "int option"
  opt_width :: "int option"

definition defaultCaptchaOptions :: nat where
  "defaultCaptchaOptions = 0"

definition module_init :: "captcha_options \<Rightarrow> (nat \<Rightarrow> byte) \<Rightarrow> (nat \<Rightarrow> rat) \<Rightarrow> world" where
  \<comment> \<open>the state once the module is loaded: the default captcha group is the only object\<close>
  "module_init d e r = \<lparr>captcha_heap = (\<lambda>_. d), next_ref = 1, entropy = e, math_random = r\<rparr>"

definition or_default :: "int option \<Rightarrow> int \<Rightarrow> int" where
  \<comment> \<open>\<^verbatim>\<open>v || d\<close> on a number: \<^verbatim>\<open>undefined\<close> and \<open>0\<close> are falsy\<close>
  "or_default v d = (case v of None \<Rightarrow> d | Some n \<Rightarrow> if n = 0 then d else n)"

definition CaptchaGenerator ::
  "trace_options \<Rightarrow> decoy_options \<Rightarrow> constructor_options \<Rightarrow> world \<Rightarrow> error + (generator \<times> world)" where
  "CaptchaGenerator defaultTraceOptions defaultDecoyOptions options w =
     (let this = \<lparr>height = or_default (opt_height options) 100,
                  width = or_default (opt_width options) 300,
                  captcha = defaultCaptchaOptions,
                  trace = defaultTraceOptions,
                  decoy = defaultDecoyOptions,
                  background = None\<rparr>
      in case randomBytes 32 (entropy w) of
           Inl err \<Rightarrow> Inl err
         | Inr (bytes, e') \<Rightarrow>
             let obj = captcha_heap w (captcha this);
                 t = random_text bytes (captcha_characters obj)
             in Inr (this, w\<lparr>captcha_heap := (captcha_heap w)(captcha this := obj\<lparr>captcha_text := t\<rparr>),
                              entropy := e'\<rparr>))"

definition get_text :: "generator \<Rightarrow> world \<Rightarrow> string" where
  \<comment> \<open>the accessor \<^verbatim>\<open>get text()\<close>\<close>
  "get_text this w = captcha_text (captcha_heap w (captcha this))"

definition characters :: "generator \<Rightarrow> world \<Rightarrow> int" where
  \<comment> \<open>\<^verbatim>\<open>this.captcha.characters\<close>\<close>
  "characters this w = captcha_characters (captcha_heap w (captcha this))"

definition setDimension :: "int \<Rightarrow> int \<Rightarrow> generator \<Rightarrow> generator" where
  "setDimension h w this = this\<lparr>height := h, width := w\<rparr>"

definition setBackground :: "image_ref \<Rightarrow> generator \<Rightarrow> generator" where
  "setBackground img this = this\<lparr>background := Some img\<rparr>"

definition setCaptcha :: "set_captcha_options \<Rightarrow> generator \<Rightarrow> world \<Rightarrow> generator \<times> world" where
  "setCaptcha options this w =
     (let merged = merge_captcha (captcha_heap w (captcha this)) options;
          a = next_ref w;
          this' = this\<lparr>captcha := a\<rparr>;
          w' = w\<lparr>captcha_heap := (captcha_heap w)(a := merged), next_ref := Suc a\<rparr>
      in case set_text options of
           Some t \<Rightarrow>
             if truthy_string t
             then (this', w'\<lparr>captcha_heap :=
                     (captcha_heap w')(a := (captcha_heap w' a)\<lparr>captcha_characters := int (length t)\<rparr>)\<rparr>)
             else (this', w')
         | None \<Rightarrow> (this', w'))"

definition setTrace :: "set_trace_options \<Rightarrow> generator \<Rightarrow> generator" where
  "setTrace options this = this\<lparr>trace := merge_trace (trace this) options\<rparr>"

definition setDecoy :: "set_decoy_options \<Rightarrow> generator \<Rightarrow> generator" where
  "setDecoy options this = this\<lparr>decoy := merge_decoy (decoy this) options\<rparr>"

section \<open>The rendering surface\<close>

text \<open>
  A call of the canvas, with its arguments. The font of \<open>SetTextFont\<close> is the pair of
  the size and the family that the template \<^verbatim>\<open>`${size}px ${font}`\<close> joins. A glyph is one
  character, or \<open>None\<close> for \<^verbatim>\<open>undefined\<close>. What the canvas library does with its
  arguments (a dimension it cannot allocate, a font it does not know) is not modelled.
\<close>

datatype canvas_op =
    NewCanvas int int
  | SetTextBaseline string
  | SetLineJoin string
  | PrintImage image int int int int
  | SetTextFont int string
  | SetGlobalAlpha rat
  | SetColor string
  | PrintText "char option" rat int
  | SetStroke string
  | BeginPath
  | MoveTo rat int
  | SetStrokeWidth int
  | LineTo rat int
  | Stroke
  | ToBuffer

type_synonym canvas = "canvas_op list"

type_synonym coordinate = "rat \<times> int"

fun is_PrintText :: "canvas_op \<Rightarrow> bool" where
  "is_PrintText (PrintText g x y) = True"
| "is_PrintText _ = False"

fun is_PrintImage :: "canvas_op \<Rightarrow> bool" where
  "is_PrintImage (PrintImage i x y w h) = True"
| "is_PrintImage _ = False"

fun is_path_op :: "canvas_op \<Rightarrow> bool" where
  "is_path_op (SetStroke c) = True"
| "is_path_op BeginPath = True"
| "is_path_op (MoveTo x y) = True"
| "is_path_op (SetStrokeWidth n) = True"
| "is_path_op (LineTo x y) = True"
| "is_path_op Stroke = True"
| "is_path_op _ = False"

definition coordinate_at :: "coordinate list \<Rightarrow> nat \<Rightarrow> error + coordinate" where
  \<comment> \<open>\<^verbatim>\<open>coordinates[i][0]\<close> and \<^verbatim>\<open>coordinates[i][1]\<close>: past the end \<^verbatim>\<open>coordinates[i]\<close> is
      \<^verbatim>\<open>undefined\<close> and reading its element \<open>0\<close> throws\<close>
  "coordinate_at coordinates i =
     (if i < length coordinates then Inr (coordinates ! i) else Inl TypeError)"

definition truthy_image :: "image_ref option \<Rightarrow> bool" where
  "truthy_image b = (case b of None \<Rightarrow> False | Some (Path p) \<Rightarrow> truthy_string p | Some (Buffer bs) \<Rightarrow> True)"

section \<open>generate\<close>

subsection \<open>Layout (lines 122-133)\<close>

definition slot_x :: "int \<Rightarrow> int \<Rightarrow> rat" where
  \<comment> \<open>\<^verbatim>\<open>widhtGap*(i + 0.2)\<close> as the loop below computes it: the literal, the sum and the
      product are each rounded\<close>
  "slot_x widhtGap i = to_double (of_int widhtGap * to_double (of_int i + to_double (2 / 10)))"

function coordinates_loop ::
  "int \<Rightarrow> int \<Rightarrow> int \<Rightarrow> int \<Rightarrow> coordinate list \<Rightarrow> (nat \<Rightarrow> rat) \<Rightarrow> coordinate list \<times> (nat \<Rightarrow> rat)" where
  "coordinates_loop W H n i coordinates r =
     (if i < n then
        (let widhtGap = W div n;  \<comment> \<open>\<^verbatim>\<open>Math.floor(this.width/(this.captcha.characters))\<close>\<close>
             randomWidth = to_double (of_int widhtGap * to_double (of_int i + to_double (2 / 10)))
         in case getRandom H r of
              (randomHeight, r') \<Rightarrow>
                coordinates_loop W H n (i + 1) (coordinates @ [(randomWidth, randomHeight)]) r')
      else (coordinates, r))"
  by pat_completeness auto
termination
  by (relation "measure (\<lambda>(W, H, n, i, coordinates, r). nat (n - i))") auto

definition layout :: "int \<Rightarrow> int \<Rightarrow> int \<Rightarrow> (nat \<Rightarrow> rat) \<Rightarrow> coordinate list \<times> (nat \<Rightarrow> rat)" where
  \<comment> \<open>the loop from \<open>i = 0\<close>, then the sort by x; \<^verbatim>\<open>Array.prototype.sort\<close> is stable\<close>
  "layout W H n r =
     (case coordinates_loop W H n 0 [] r of
        (coordinates, r') \<Rightarrow> (sort_key fst coordinates, r'))"

subsection \<open>The four stages (lines 135-169)\<close>

text \<open>
  A stage takes the calls issued so far and returns them extended, with the exception
  that ended it, if any.
\<close>

definition background_stage ::
  "(image_ref \<Rightarrow> image option) \<Rightarrow> generator \<Rightarrow> canvas \<Rightarrow> canvas \<times> error option" where
  "background_stage resolveImage this canvas =
     (if truthy_image (background this) then
        (case resolveImage (the (background this)) of
           None \<Rightarrow> (canvas, Some ImageError)
         | Some img \<Rightarrow> (canvas @ [PrintImage img 0 0 (width this) (height this)], None))
      else (canvas, None))"

function decoy_loop ::
  "string \<Rightarrow> int \<Rightarrow> int \<Rightarrow> nat \<Rightarrow> canvas \<Rightarrow> (nat \<Rightarrow> rat) \<Rightarrow> canvas \<times> (nat \<Rightarrow> rat)" where
  "decoy_loop decoyText W H i canvas r =
     (if i < length decoyText then
        (case getRandom W r of
           (x, r1) \<Rightarrow>
             (case getRandom H r1 of
                (y, r2) \<Rightarrow>
                  decoy_loop decoyText W H (i + 1)
                    (canvas @ [PrintText (char_at decoyText i) (of_int x) y]) r2))
      else (canvas, r))"
  by pat_completeness auto
termination
  by (relation "measure (\<lambda>(decoyText, W, H, i, canvas, r). length decoyText - i)") auto

definition decoy_stage :: "generator \<Rightarrow> canvas \<Rightarrow> world \<Rightarrow> (canvas \<times> error option) \<times> world" where
  "decoy_stage this canvas w =
     (if decoy_opacity (decoy this) > 0 then
        (let decoyTextCount = (height this * width this) div 10000
         in case randomBytes decoyTextCount (entropy w) of
              Inl err \<Rightarrow> ((canvas, Some err), w)
            | Inr (bytes, e') \<Rightarrow>
                (let decoyText = toString_hex bytes;
                     canvas1 = canvas @ [SetTextFont (decoy_size (decoy this)) (decoy_font (decoy this)),
                                         SetGlobalAlpha (decoy_opacity (decoy this)),
                                         SetColor (decoy_color (decoy this))]
                 in case decoy_loop decoyText (width this) (height this) 0 canvas1 (math_random w) of
                      (canvas2, r') \<Rightarrow> ((canvas2, None), w\<lparr>entropy := e', math_random := r'\<rparr>)))
      else ((canvas, None), w))"

function trace_loop :: "coordinate list \<Rightarrow> nat \<Rightarrow> canvas \<Rightarrow> canvas \<times> error option" where
  "trace_loop coordinates i canvas =
     (if i < length coordinates then
        (case coordinate_at coordinates i of
           Inl err \<Rightarrow> (canvas, Some err)
         | Inr (x, y) \<Rightarrow> trace_loop coordinates (i + 1) (canvas @ [LineTo x y]))
      else (canvas, None))"
  by pat_completeness auto
termination
  by (relation "measure (\<lambda>(coordinates, i, canvas). length coordinates - i)") auto

definition trace_stage :: "generator \<Rightarrow> coordinate list \<Rightarrow> canvas \<Rightarrow> canvas \<times> error option" where
  "trace_stage this coordinates canvas =
     (if trace_opacity (trace this) > 0 then
        (let canvas1 = canvas @ [SetStroke (trace_color (trace this)),
                                 SetGlobalAlpha (trace_opacity (trace this)),
                                 BeginPath]
         in case coordinate_at coordinates 0 of
              Inl err \<Rightarrow> (canvas1, Some err)
            | Inr (x, y) \<Rightarrow>
                (case trace_loop coordinates 1
                        (canvas1 @ [MoveTo x y, SetStrokeWidth (trace_size (trace this))]) of
                   (canvas2, Some err) \<Rightarrow> (canvas2, Some err)
                 | (canvas2, None) \<Rightarrow> (canvas2 @ [Stroke], None)))
      else (canvas, None))"

function captcha_loop :: "string \<Rightarrow> coordinate list \<Rightarrow> nat \<Rightarrow> canvas \<Rightarrow> canvas \<times> error option" where
  "captcha_loop str coordinates n canvas =
     (if n < length coordinates then
        (case coordinate_at coordinates n of
           Inl err \<Rightarrow> (canvas, Some err)
         | Inr (x, y) \<Rightarrow>
             captcha_loop str coordinates (n + 1) (canvas @ [PrintText (char_at str n) x y]))
      else (canvas, None))"
  by pat_completeness auto
termination
  by (relation "measure (\<lambda>(str, coordinates, n, canvas). length coordinates - n)") auto

definition captcha_stage :: "captcha_options \<Rightarrow> coordinate list \<Rightarrow> canvas \<Rightarrow> canvas \<times> error option" where
  "captcha_stage c coordinates canvas =
     (if captcha_opacity c > 0 then
        captcha_loop (captcha_text c) coordinates 0
          (canvas @ [SetTextFont (captcha_size c) (captcha_font c),
                     SetGlobalAlpha (captcha_opacity c),
                     SetColor (captcha_color c)])
      else (canvas, None))"

subsection \<open>The method\<close>

text \<open>
  \<open>generate\<close> returns the calls the canvas received, the exception that ended the call
  (\<open>None\<close> when the buffer was returned, after \<open>ToBuffer\<close>), and the state it leaves.
  \<open>resolveImage\<close> is the image loader of the canvas library: \<open>None\<close> is a rejected load.
\<close>

definition generate ::
  "(image_ref \<Rightarrow> image option) \<Rightarrow> generator \<Rightarrow> world \<Rightarrow> (canvas \<times> error option) \<times> world" where
  "generate resolveImage this w =
     (let canvas = [NewCanvas (width this) (height this), SetTextBaseline ''middle'', SetLineJoin ''miter'']
      in case layout (width this) (height this) (characters this w) (math_random w) of
        (coordinates, r1) \<Rightarrow>
          (let w1 = w\<lparr>math_random := r1\<rparr>
           in case background_stage resolveImage this canvas of
             (canvas1, Some err) \<Rightarrow> ((canvas1, Some err), w1)
           | (canvas1, None) \<Rightarrow>
               (case decoy_stage this canvas1 w1 of
                  ((canvas2, Some err), w2) \<Rightarrow> ((canvas2, Some err), w2)
                | ((canvas2, None), w2) \<Rightarrow>
                    (case trace_stage this coordinates canvas2 of
                       (canvas3, Some err) \<Rightarrow> ((canvas3, Some err), w2)
                     | (canvas3, None) \<Rightarrow>
                         (case captcha_stage (captcha_heap w2 (captcha this)) coordinates canvas3 of
                            (canvas4, Some err) \<Rightarrow> ((canvas4, Some err), w2)
                          | (canvas4, None) \<Rightarrow> ((canvas4 @ [ToBuffer], None), w2))))))"

fun generate_times ::
  "(image_ref \<Rightarrow> image option) \<Rightarrow> nat \<Rightarrow> generator \<Rightarrow> world \<Rightarrow> world" where
  "generate_times resolveImage 0 this w = w"
| "generate_times resolveImage (Suc k) this w =
     generate_times resolveImage k this (snd (generate resolveImage this w))"

section \<open>The calls of each stage, in closed form\<close>

text \<open>
  What each stage sends to the canvas, written without the loops and without the
  threading of the canvas, and the condition under which the stage throws. The lemmas
  below show that the stages of the source issue exactly these calls.
\<close>

definition background_fails :: "(image_ref \<Rightarrow> image option) \<Rightarrow> generator \<Rightarrow> bool" where
  "background_fails resolveImage this =
     (truthy_image (background this) \<and> resolveImage (the (background this)) = None)"

definition background_calls :: "(image_ref \<Rightarrow> image option) \<Rightarrow> generator \<Rightarrow> canvas" where
  "background_calls resolveImage this =
     (if truthy_image (background this) then
        (case resolveImage (the (background this)) of
           None \<Rightarrow> []
         | Some img \<Rightarrow> [PrintImage img 0 0 (width this) (height this)])
      else [])"

definition decoyTextCount :: "generator \<Rightarrow> int" where
  "decoyTextCount this = (height this * width this) div 10000"

definition decoy_fails :: "generator \<Rightarrow> bool" where
  "decoy_fails this =
     (0 < decoy_opacity (decoy this) \<and> (decoyTextCount this < 0 \<or> 2147483647 < decoyTextCount this))"

definition decoy_glyphs :: "generator \<Rightarrow> (nat \<Rightarrow> byte) \<Rightarrow> (nat \<Rightarrow> rat) \<Rightarrow> canvas" where
  "decoy_glyphs this e r =
     (let decoyText = toString_hex (map e [0..<nat (decoyTextCount this)])
      in map (\<lambda>k. PrintText (Some (decoyText ! k))
                     (of_int (getRandom_of (width this) (r (2 * k))))
                     (getRandom_of (height this) (r (2 * k + 1))))
           [0..<length decoyText])"

definition decoy_calls :: "generator \<Rightarrow> (nat \<Rightarrow> byte) \<Rightarrow> (nat \<Rightarrow> rat) \<Rightarrow> canvas" where
  "decoy_calls this e r =
     (if 0 < decoy_opacity (decoy this) \<and> \<not> decoy_fails this then
        [SetTextFont (decoy_size (decoy this)) (decoy_font (decoy this)),
         SetGlobalAlpha (decoy_opacity (decoy this)),
         SetColor (decoy_color (decoy this))] @ decoy_glyphs this e r
      else [])"

definition trace_fails :: "generator \<Rightarrow> coordinate list \<Rightarrow> bool" where
  "trace_fails this coordinates = (0 < trace_opacity (trace this) \<and> coordinates = [])"

definition trace_calls :: "generator \<Rightarrow> coordinate list \<Rightarrow> canvas" where
  "trace_calls this coordinates =
     (if 0 < trace_opacity (trace this) then
        [SetStroke (trace_color (trace this)), SetGlobalAlpha (trace_opacity (trace this)), BeginPath] @
        (case coordinates of
           [] \<Rightarrow> []
         | (x, y) # rest \<Rightarrow>
             [MoveTo x y, SetStrokeWidth (trace_size (trace this))] @
             map (\<lambda>(x, y). LineTo x y) rest @ [Stroke])
      else [])"

definition captcha_calls :: "captcha_options \<Rightarrow> coordinate list \<Rightarrow> canvas" where
  "captcha_calls c coordinates =
     (if 0 < captcha_opacity c then
        [SetTextFont (captcha_size c) (captcha_font c),
         SetGlobalAlpha (captcha_opacity c),
         SetColor (captcha_color c)] @
        map (\<lambda>k. PrintText (char_at (captcha_text c) k) (fst (coordinates ! k)) (snd (coordinates ! k)))
          [0..<length coordinates]
      else [])"

section \<open>Sample values\<close>

text \<open>
  Concrete option groups, standing for the constants of \<^verbatim>\<open>./constants\<close>, and concrete
  random streams, on which the model is evaluated.
\<close>

definition sample_captcha :: captcha_options where
  "sample_captcha =
     \<lparr>captcha_text = [], captcha_characters = 6, captcha_font = ''Sans'',
      captcha_size = 40, captcha_color = ''#32cf7e'', captcha_opacity = 1\<rparr>"

definition sample_trace :: trace_options where
  "sample_trace = \<lparr>trace_color = ''#32cf7e'', trace_size = 3, trace_opacity = 1\<rparr>"

definition sample_decoy :: decoy_options where
  "sample_decoy =
     \<lparr>decoy_font = ''Sans'', decoy_size = 20, decoy_color = ''#646566'', decoy_opacity = 1 / 2\<rparr>"

definition no_options :: constructor_options where
  "no_options = \<lparr>opt_height = None, opt_width = None\<rparr>"

definition sample_generator :: generator where
  \<comment> \<open>a generator as the constructor leaves it, with the default dimensions\<close>
  "sample_generator =
     \<lparr>height = 100, width = 300, captcha = defaultCaptchaOptions,
      trace = sample_trace, decoy = sample_decoy, background = None\<rparr>"

definition sample_world :: "byte \<Rightarrow> world" where
  \<comment> \<open>every random byte is \<open>b\<close>, every \<^verbatim>\<open>Math.random()\<close> is one half\<close>
  "sample_world b = module_init sample_captcha (\<lambda>i. b) (\<lambda>i. 1 / 2)"

definition text_only :: "string \<Rightarrow> set_captcha_options" where
  \<comment> \<open>the argument \<^verbatim>\<open>{text: t}\<close>\<close>
  "text_only t =
     \<lparr>set_text = Some t, set_characters = None, set_captcha_font = None,
      set_captcha_size = None, set_captcha_color = None, set_captcha_opacity = None\<rparr>"

definition two_texts_entropy :: "nat \<Rightarrow> byte" where
  \<comment> \<open>32 bytes \<open>0xAB\<close>, then only bytes \<open>0xCD\<close>\<close>
  "two_texts_entropy i = (if i < 32 then 0xAB else 0xCD)"

definition muted_captcha :: captcha_options where
  "muted_captcha = sample_captcha\<lparr>captcha_text := ''ABCDEF'', captcha_opacity := 0\<rparr>"

definition muted_generator :: generator where
  \<comment> \<open>the sample generator after \<^verbatim>\<open>setTrace({opacity: 0}).setDecoy({opacity: 0})\<close>\<close>
  "muted_generator =
     sample_generator\<lparr>trace := sample_trace\<lparr>trace_opacity := 0\<rparr>,
                      decoy := sample_decoy\<lparr>decoy_opacity := 0\<rparr>\<rparr>"

definition no_image :: "image_ref \<Rightarrow> image option" where
  \<comment> \<open>a loader that rejects every reference\<close>
  "no_image ref = None"

definition empty_world :: world where
  \<comment> \<open>a store whose default captcha group has \<open>characters = 0\<close>\<close>
  "empty_world = module_init (sample_captcha\<lparr>captcha_characters := 0\<rparr>) (\<lambda>i. 0) (\<lambda>i. 1 / 2)"

section \<open>Properties of binary64 rounding\<close>

declare bit_length.simps [simp del]

lemma bit_length_bounds:
  "0 < n \<Longrightarrow> 2 ^ (bit_length n - 1) \<le> n \<and> n < 2 ^ bit_length n"
proof (induction n rule: bit_length.induct)
  case (1 n)
  show ?case
  proof (cases "n div 2 = 0")
    case True
    with "1.prems" have "n = 1" by (simp add: div_eq_0_iff) 
    then show ?thesis by (simp add: bit_length.simps [of "Suc 0"] bit_length.simps [of 0])
  next
    case False
    then have pos: "0 < n div 2" by simp
    from "1.prems" have n0: "n \<noteq> 0" by simp
    note ih = "1.IH" [OF n0 pos]
    have bl: "bit_length n = Suc (bit_length (n div 2))"
      using n0 by (simp add: bit_length.simps [of n])
    have gt: "0 < bit_length (n div 2)"
      using pos by (simp add: bit_length.simps [of "n div 2"])
    then have e: "bit_length n - 1 = Suc (bit_length (n div 2) - 1)" using bl by simp
    have "2 * 2 ^ (bit_length (n div 2) - 1) \<le> 2 * (n div 2)" using ih by simp
    also have "\<dots> \<le> n" by simp
    finally have "2 * 2 ^ (bit_length (n div 2) - 1) \<le> n" .
    moreover have "(2 :: nat) ^ (bit_length n - 1) = 2 * 2 ^ (bit_length (n div 2) - 1)"
      by (simp only: e power_Suc)
    ultimately have lo: "2 ^ (bit_length n - 1) \<le> n" by simp
    have "n < 2 * (n div 2) + 2" by presburger
    also have "\<dots> \<le> 2 * 2 ^ bit_length (n div 2)" using ih by simp
    finally have hi: "n < 2 ^ bit_length n" by (simp add: bl)
    from lo hi show ?thesis ..
  qed
qed

lemma exponent_bounds:
  assumes "x \<noteq> 0"
  shows "2 powi exponent x \<le> \<bar>x\<bar>" and "\<bar>x\<bar> < 2 powi (exponent x + 1)"
proof -
  have "2 powi exponent x \<le> \<bar>x\<bar> \<and> \<bar>x\<bar> < 2 powi (exponent x + 1)"
  proof (cases "1 \<le> \<bar>x\<bar>")
    case True
    define a where "a = nat \<lfloor>\<bar>x\<bar>\<rfloor>"
    have a: "0 < a" using True by (simp add: a_def)
    have ax: "rat_of_nat a \<le> \<bar>x\<bar>" "\<bar>x\<bar> < rat_of_nat a + 1"
      using True by (simp_all add: a_def) linarith+
    have e: "exponent x = int (bit_length a) - 1" using True by (simp add: exponent_def a_def)
    have bl: "0 < bit_length a" using a by (simp add: bit_length.simps [of a])
    then have e': "exponent x = int (bit_length a - 1)" using e by simp
    from bit_length_bounds [OF a] have lo: "2 ^ (bit_length a - 1) \<le> a" and hi: "a < 2 ^ bit_length a"
      by simp_all
    have "(2 :: rat) powi exponent x = 2 ^ (bit_length a - 1)" by (simp add: e' power_int_def)
    also have "\<dots> \<le> rat_of_nat a"
      using of_nat_mono [OF lo, where ?'a = rat] by simp
    finally have 1: "2 powi exponent x \<le> \<bar>x\<bar>" using ax(1) by simp
    have "a + 1 \<le> 2 ^ bit_length a" using hi by simp
    then have "rat_of_nat a + 1 \<le> 2 ^ bit_length a"
      using of_nat_mono [of "a + 1" "2 ^ bit_length a", where ?'a = rat] by simp
    moreover have "exponent x + 1 = int (bit_length a)" using e by simp
    then have "(2 :: rat) powi (exponent x + 1) = 2 ^ bit_length a" by (simp add: power_int_def)
    ultimately have 2: "\<bar>x\<bar> < 2 powi (exponent x + 1)" using ax(2) by simp
    from 1 2 show ?thesis ..
  next
    case False
    have xpos: "0 < \<bar>x\<bar>" using assms by simp
    define y where "y = 1 / \<bar>x\<bar>"
    have y1: "1 < y" using False xpos by (simp add: y_def)
    define a where "a = nat (\<lceil>y\<rceil> - 1)"
    have cy: "2 \<le> \<lceil>y\<rceil>" using y1 by linarith 
    have a: "0 < a" using cy by (simp add: a_def)
    have ay: "rat_of_nat a < y" "y \<le> rat_of_nat a + 1"
      using cy by (simp_all add: a_def) linarith+
    have e: "exponent x = - int (bit_length a)" using False by (simp add: exponent_def a_def y_def)
    have bl: "0 < bit_length a" using a by (simp add: bit_length.simps [of a])
    from bit_length_bounds [OF a] have lo: "2 ^ (bit_length a - 1) \<le> a" and hi: "a < 2 ^ bit_length a"
      by simp_all
    have "a + 1 \<le> 2 ^ bit_length a" using hi by simp
    then have "rat_of_nat a + 1 \<le> 2 ^ bit_length a"
      using of_nat_mono [of "a + 1" "2 ^ bit_length a", where ?'a = rat] by simp
    then have "y \<le> 2 ^ bit_length a" using ay(2) by simp
    then have "1 / \<bar>x\<bar> \<le> 2 ^ bit_length a" by (simp add: y_def)
    then have "1 \<le> 2 ^ bit_length a * \<bar>x\<bar>" using xpos by (simp add: field_simps)
    then have "1 / 2 ^ bit_length a \<le> \<bar>x\<bar>" by (simp add: field_simps)
    moreover have "(2 :: rat) powi exponent x = 1 / 2 ^ bit_length a"
      by (simp add: e power_int_minus field_simps)
    ultimately have 1: "2 powi exponent x \<le> \<bar>x\<bar>" by simp
    have "(2 :: rat) ^ (bit_length a - 1) \<le> rat_of_nat a"
      using of_nat_mono [OF lo, where ?'a = rat] by simp
    then have "2 ^ (bit_length a - 1) < y" using ay(1) by (rule le_less_trans)
    then have "2 ^ (bit_length a - 1) * \<bar>x\<bar> < 1" using xpos by (simp add: y_def field_simps)
    then have "\<bar>x\<bar> < 1 / 2 ^ (bit_length a - 1)" by (simp add: field_simps)
    moreover have "exponent x + 1 = - int (bit_length a - 1)" using e bl by simp
    then have "(2 :: rat) powi (exponent x + 1) = 1 / 2 ^ (bit_length a - 1)"
      by (simp add: power_int_minus field_simps)
    ultimately have 2: "\<bar>x\<bar> < 2 powi (exponent x + 1)" by simp
    from 1 2 show ?thesis ..
  qed
  then show "2 powi exponent x \<le> \<bar>x\<bar>" and "\<bar>x\<bar> < 2 powi (exponent x + 1)" by simp_all
qed

lemma round_half_even_lower: "\<lfloor>y\<rfloor> \<le> round_half_even y"
  by (simp add: round_half_even_def Let_def)

lemma round_half_even_upper: "round_half_even y \<le> \<lfloor>y\<rfloor> + 1"
  by (simp add: round_half_even_def Let_def)

lemma round_half_even_of_int [simp]: "round_half_even (of_int k) = k"
  by (simp add: round_half_even_def Let_def)

lemma round_half_even_ge:
  assumes "of_int k \<le> y"
  shows "k \<le> round_half_even y"
proof -
  have "k \<le> \<lfloor>y\<rfloor>" using assms by (simp add: le_floor_iff)
  then show ?thesis using round_half_even_lower [of y] by simp
qed

lemma round_half_even_le:
  assumes "y \<le> of_int k"
  shows "round_half_even y \<le> k"
proof (cases "y = of_int \<lfloor>y\<rfloor>")
  case True
  then have "round_half_even y = \<lfloor>y\<rfloor>" by (metis round_half_even_of_int)
  moreover have "\<lfloor>y\<rfloor> \<le> k" using assms by (simp add: floor_le_iff)
  ultimately show ?thesis by simp
next
  case False
  then have "of_int \<lfloor>y\<rfloor> < y" using of_int_floor_le [of y] by linarith
  then have "of_int \<lfloor>y\<rfloor> < (of_int k :: rat)" using assms by simp
  then have "\<lfloor>y\<rfloor> + 1 \<le> k" by simp
  then show ?thesis using round_half_even_upper [of y] by simp
qed

lemma round_half_even_error: "\<bar>of_int (round_half_even y) - y\<bar> \<le> 1 / 2"
proof -
  have "of_int \<lfloor>y\<rfloor> \<le> y" "y < of_int \<lfloor>y\<rfloor> + 1" by linarith+
  then show ?thesis by (auto simp: round_half_even_def Let_def abs_le_iff)
qed

lemma round_half_even_mono:
  assumes "x \<le> y"
  shows "round_half_even x \<le> round_half_even y"
proof (cases "\<lfloor>x\<rfloor> < \<lfloor>y\<rfloor>")
  case True
  then have "round_half_even x \<le> \<lfloor>y\<rfloor>" using round_half_even_upper [of x] by simp
  then show ?thesis using round_half_even_lower [of y] by simp
next
  case False
  then have "\<lfloor>x\<rfloor> = \<lfloor>y\<rfloor>" using floor_mono [OF assms] by simp
  then show ?thesis using assms by (auto simp: round_half_even_def Let_def)
qed

lemma quantum_pos: "0 < quantum x"
  by (simp add: quantum_def)

lemma to_double_0 [simp]: "to_double 0 = 0"
  by (simp add: to_double_def round_half_even_def)

lemma to_double_nonneg: "0 \<le> x \<Longrightarrow> 0 \<le> to_double x"
proof -
  assume "0 \<le> x"
  then have "of_int 0 \<le> x / quantum x" using quantum_pos [of x] by simp
  then have "0 \<le> round_half_even (x / quantum x)" by (rule round_half_even_ge)
  then show ?thesis using quantum_pos [of x] by (simp add: to_double_def)
qed

lemma to_double_error_quantum: "\<bar>to_double x - x\<bar> \<le> quantum x / 2"
proof -
  let ?q = "quantum x"
  have q: "0 < ?q" by (rule quantum_pos)
  have "to_double x - x = (of_int (round_half_even (x / ?q)) - x / ?q) * ?q"
    using q by (simp add: to_double_def field_simps)
  then have "\<bar>to_double x - x\<bar> = \<bar>of_int (round_half_even (x / ?q)) - x / ?q\<bar> * ?q"
    using q by (simp add: abs_mult)
  also have "\<dots> \<le> 1 / 2 * ?q"
    using round_half_even_error [of "x / ?q"] q by (intro mult_right_mono) simp_all
  finally show ?thesis by simp
qed

lemma exponent_ge:
  assumes "2 powi k \<le> \<bar>x\<bar>"
  shows "k \<le> exponent x"
proof -
  have "0 < (2 :: rat) powi k" by simp
  then have "0 < \<bar>x\<bar>" using assms by (rule less_le_trans)
  then have x: "x \<noteq> 0" by simp
  have "(2 :: rat) powi k < 2 powi (exponent x + 1)"
    using assms exponent_bounds(2) [OF x] by simp
  then have "k < exponent x + 1"
    by (metis not_less power_int_increasing one_le_numeral)
  then show ?thesis by simp
qed

lemma exponent_mono:
  assumes "0 < x" "x \<le> y"
  shows "exponent x \<le> exponent y"
proof -
  have "2 powi exponent x \<le> \<bar>x\<bar>" using exponent_bounds(1) [of x] assms by simp
  then have "2 powi exponent x \<le> \<bar>y\<bar>" using assms by simp
  then show ?thesis by (rule exponent_ge)
qed

lemma quantum_normal:
  assumes "2 powi (emin + 52) \<le> \<bar>x\<bar>"
  shows "quantum x \<le> \<bar>x\<bar> * 2 powi (- 52)"
proof -
  have "0 < (2 :: rat) powi (emin + 52)" by simp
  then have "0 < \<bar>x\<bar>" using assms by (rule less_le_trans)
  then have x: "x \<noteq> 0" by simp
  have e: "emin + 52 \<le> exponent x" using assms by (rule exponent_ge)
  then have "max (exponent x - 52) emin = exponent x - 52" by simp
  then have "quantum x = 2 powi (exponent x - 52)" by (simp only: quantum_def)
  also have "\<dots> = 2 powi exponent x * 2 powi (- 52)"
    using power_int_add [of "2 :: rat" "exponent x" "- 52"] by simp
  also have "\<dots> \<le> \<bar>x\<bar> * 2 powi (- 52)"
    using exponent_bounds(1) [OF x] by (intro mult_right_mono) simp_all
  finally show ?thesis .
qed

lemma quantum_subnormal:
  assumes "x \<noteq> 0" "\<bar>x\<bar> < 2 powi (emin + 52)"
  shows "quantum x = 2 powi emin"
proof -
  have "2 powi exponent x < (2 :: rat) powi (emin + 52)"
    using exponent_bounds(1) [OF assms(1)] assms(2) by simp
  then have "exponent x < emin + 52"
    by (metis not_less power_int_increasing one_le_numeral)
  then show ?thesis by (simp add: quantum_def max_def)
qed

lemma to_double_error:
  "\<bar>to_double x - x\<bar> \<le> max (\<bar>x\<bar> * 2 powi (- 53)) (2 powi (emin - 1))"
proof (cases "x = 0")
  case True
  then show ?thesis by (simp add: max_def less_imp_le)
next
  case x: False
  show ?thesis
  proof (cases "2 powi (emin + 52) \<le> \<bar>x\<bar>")
    case True
    have "\<bar>to_double x - x\<bar> \<le> quantum x / 2" by (rule to_double_error_quantum)
    also have "\<dots> \<le> \<bar>x\<bar> * 2 powi (- 52) / 2" using quantum_normal [OF True] by simp
    also have "\<dots> = \<bar>x\<bar> * 2 powi (- 53)" by simp
    finally have "\<bar>to_double x - x\<bar> \<le> \<bar>x\<bar> * 2 powi (- 53)" .
    then show ?thesis by (rule max.coboundedI1)
  next
    case False
    then have "quantum x = 2 powi emin" using quantum_subnormal [OF x] by simp
    then have "\<bar>to_double x - x\<bar> \<le> 2 powi emin / 2" using to_double_error_quantum [of x] by simp
    also have "\<dots> = 2 powi (emin - 1)"
      using power_int_diff [of "2 :: rat" emin 1] by simp
    finally show ?thesis by (rule max.coboundedI2)
  qed
qed

lemma to_double_mono:
  assumes "0 \<le> x" "x \<le> y"
  shows "to_double x \<le> to_double y"
proof (cases "x = 0")
  case True
  then show ?thesis using assms to_double_nonneg [of y] by simp
next
  case False
  then have x: "0 < x" using assms by simp
  then have y: "0 < y" using assms by simp
  let ?px = "max (exponent x - 52) emin" and ?py = "max (exponent y - 52) emin"
  have qx: "quantum x = 2 powi ?px" and qy: "quantum y = 2 powi ?py" by (simp_all add: quantum_def)
  have e: "exponent x \<le> exponent y" using x assms(2) by (rule exponent_mono)
  then have p: "?px \<le> ?py" by simp
  show ?thesis
  proof (cases "?px = ?py")
    case True
    then have q: "quantum y = quantum x" by (simp only: qx qy)
    have "x / quantum x \<le> y / quantum x"
      using assms(2) quantum_pos [of x] by (simp add: divide_right_mono)
    then have "round_half_even (x / quantum x) \<le> round_half_even (y / quantum x)"
      by (rule round_half_even_mono)
    then have "(of_int (round_half_even (x / quantum x)) :: rat) \<le> of_int (round_half_even (y / quantum x))"
      by simp
    then show ?thesis
      unfolding to_double_def q using quantum_pos [of x] by (simp add: mult_right_mono)
  next
    case False
    then have lt: "?px < ?py" using p by (rule order.not_eq_order_implies_strict)
    then have py: "?py = exponent y - 52" by (simp add: max_def split: if_splits)
    have ee: "exponent x + 1 \<le> exponent y" using lt py by simp
    define T :: rat where "T = 2 powi exponent y"
    have xT: "x \<le> T"
    proof -
      have "x < 2 powi (exponent x + 1)" using exponent_bounds(2) [of x] x by simp
      also have "\<dots> \<le> 2 powi exponent y" using ee by (intro power_int_increasing) simp_all
      finally show ?thesis by (simp add: T_def)
    qed
    have Ty: "T \<le> y" using exponent_bounds(1) [of y] y by (simp add: T_def)
    have kx: "T / quantum x = of_int (2 ^ nat (exponent y - ?px))"
    proof -
      have nn: "0 \<le> exponent y - ?px" using lt py by simp
      have "T / quantum x = 2 powi (exponent y - ?px)"
        unfolding T_def qx using power_int_diff [of "2 :: rat" "exponent y" ?px] by simp
      also have "\<dots> = 2 ^ nat (exponent y - ?px)" using nn by (rule power_int_nonneg_exp)
      finally show ?thesis by simp
    qed
    have ky: "T / quantum y = of_int (2 ^ 52)"
    proof -
      have "T / quantum y = 2 powi (exponent y - ?py)"
        unfolding T_def qy using power_int_diff [of "2 :: rat" "exponent y" ?py] by simp
      also have "exponent y - ?py = 52" using py by simp
      finally show ?thesis by simp
    qed
    have "x / quantum x \<le> T / quantum x"
      using xT quantum_pos [of x] by (simp add: divide_right_mono)
    then have "round_half_even (x / quantum x) \<le> 2 ^ nat (exponent y - ?px)"
      unfolding kx by (rule round_half_even_le)
    then have "(of_int (round_half_even (x / quantum x)) :: rat) \<le> of_int (2 ^ nat (exponent y - ?px))"
      by (simp only: of_int_le_iff)
    then have "to_double x \<le> of_int (2 ^ nat (exponent y - ?px)) * quantum x"
      unfolding to_double_def using quantum_pos [of x] by (simp add: mult_right_mono)
    also have "\<dots> = T" using kx quantum_pos [of x] by (simp add: field_simps)
    finally have 1: "to_double x \<le> T" .
    have "T / quantum y \<le> y / quantum y"
      using Ty quantum_pos [of y] by (simp add: divide_right_mono)
    then have "2 ^ 52 \<le> round_half_even (y / quantum y)"
      unfolding ky by (rule round_half_even_ge)
    then have "(of_int (2 ^ 52) :: rat) \<le> of_int (round_half_even (y / quantum y))"
      by (simp only: of_int_le_iff)
    then have "of_int (2 ^ 52) * quantum y \<le> to_double y"
      unfolding to_double_def using quantum_pos [of y] by (simp add: mult_right_mono)
    moreover have "of_int (2 ^ 52) * quantum y = T" using ky quantum_pos [of y] by (simp add: field_simps)
    ultimately have 2: "T \<le> to_double y" by simp
    from 1 2 show ?thesis by simp
  qed
qed

lemma double_below_one:
  assumes "0 \<le> u" "u < 1" "to_double u = u"
  shows "u \<le> 1 - 2 powi (- 53)"
proof (cases "u = 0")
  case True
  then show ?thesis by simp
next
  case False
  then have u: "0 < u" using assms(1) by simp
  have "2 powi exponent u \<le> u" using exponent_bounds(1) [of u] u by simp
  then have "(2 :: rat) powi exponent u < 2 powi 0" using assms(2) by simp
  then have neg: "exponent u < 0"
    by (metis not_less power_int_increasing one_le_numeral)
  show ?thesis
  proof (cases "exponent u = - 1")
    case True
    then have q: "quantum u = 2 powi (- 53)" by (simp add: quantum_def emin_def)
    define k where "k = round_half_even (u / quantum u)"
    have uk: "u = of_int k * 2 powi (- 53)" using assms(3) by (simp add: to_double_def k_def q)
    then have "of_int k * 2 powi (- 53) < (1 :: rat)" using assms(2) by simp
    then have "(of_int k :: rat) < of_int (2 ^ 53)" by (simp add: field_simps)
    then have "k < 2 ^ 53" by (simp only: of_int_less_iff)
    then have "k \<le> 2 ^ 53 - 1" by simp
    then have "(of_int k :: rat) \<le> of_int (2 ^ 53 - 1)" by (simp only: of_int_le_iff)
    then have "of_int k * 2 powi (- 53) \<le> (of_int (2 ^ 53 - 1) :: rat) * 2 powi (- 53)"
      by (intro mult_right_mono) simp_all
    then show ?thesis unfolding uk [symmetric] by simp
  next
    case False
    then have "exponent u + 1 \<le> - 1" using neg by simp
    then have "(2 :: rat) powi (exponent u + 1) \<le> 2 powi (- 1)"
      by (intro power_int_increasing) simp_all
    then have "u < 2 powi (- 1)" using exponent_bounds(2) [of u] u by simp
    then show ?thesis by simp
  qed
qed

lemma to_double_product_below:
  assumes "0 \<le> u" "u \<le> 1 - 2 powi (- 53)" "1 \<le> m"
  shows "to_double (u * m) < m"
proof -
  let ?v = "u * m" and ?eps = "(2 :: rat) powi (- 53)"
  have m: "0 < m" using assms(3) by simp
  have v0: "0 \<le> ?v" using assms(1) m by simp
  have v1: "?v \<le> (1 - ?eps) * m" using m by (intro mult_right_mono [OF assms(2)]) simp
  have "?v * ?eps \<le> ((1 - ?eps) * m) * ?eps" by (rule mult_right_mono [OF v1]) simp
  also have "\<dots> < m * ?eps" using m by simp
  finally have a: "\<bar>?v\<bar> * ?eps < m * ?eps" using v0 by simp
  have "(2 :: rat) powi (emin - 1) < 2 powi (- 53)"
    by (intro power_int_strict_increasing) (simp_all add: emin_def)
  also have "\<dots> \<le> m * ?eps" using assms(3) by simp
  finally have b: "2 powi (emin - 1) < m * ?eps" .
  have "to_double ?v - ?v \<le> \<bar>to_double ?v - ?v\<bar>" by simp
  also have "\<dots> \<le> max (\<bar>?v\<bar> * ?eps) (2 powi (emin - 1))" by (rule to_double_error)
  also have "\<dots> < m * ?eps" using a b by simp
  finally have "to_double ?v < ?v + m * ?eps" by simp
  also have "\<dots> \<le> (1 - ?eps) * m + m * ?eps" using v1 by (rule add_right_mono)
  also have "\<dots> = m" by (simp add: algebra_simps)
  finally show ?thesis .
qed

lemma to_double_error_normal:
  assumes "1 / 16 \<le> \<bar>x\<bar>"
  shows "\<bar>to_double x - x\<bar> \<le> \<bar>x\<bar> * 2 powi (- 53)"
proof -
  have "(2 :: rat) powi (emin + 52) \<le> 2 powi (- 4)"
    by (intro power_int_increasing) (simp_all add: emin_def)
  then have n: "2 powi (emin + 52) \<le> \<bar>x\<bar>" using assms by simp
  have "\<bar>to_double x - x\<bar> \<le> quantum x / 2" by (rule to_double_error_quantum)
  also have "\<dots> \<le> \<bar>x\<bar> * 2 powi (- 52) / 2" using quantum_normal [OF n] by simp
  also have "\<dots> = \<bar>x\<bar> * 2 powi (- 53)" by simp
  finally show ?thesis .
qed

text \<open>
  \<^verbatim>\<open>Math.floor(a / b)\<close> on integers below \<open>2^53\<close> is integer division: rounding the
  quotient does not change its floor. This is why \<^verbatim>\<open>Math.floor(this.width/characters)\<close>
  and \<^verbatim>\<open>Math.floor(this.height*this.width/10000)\<close> are written with \<open>div\<close>.
\<close>

lemma round_half_even_minus: "round_half_even (- y) = - round_half_even y"
proof (cases "y = of_int \<lfloor>y\<rfloor>")
  case True
  then obtain k where "y = of_int k" ..
  then have "- y = of_int (- k)" by simp
  then show ?thesis unfolding \<open>y = of_int k\<close> by (simp only: round_half_even_of_int)
next
  case False
  then have c: "\<lceil>y\<rceil> = \<lfloor>y\<rfloor> + 1" by (simp add: ceiling_altdef)
  have f: "\<lfloor>- y\<rfloor> = - \<lfloor>y\<rfloor> - 1" using c by (simp add: floor_minus)
  show ?thesis
    unfolding round_half_even_def Let_def f
    by (auto simp: algebra_simps)
qed

lemma to_double_minus: "to_double (- x) = - to_double x"
proof -
  have "exponent (- x) = exponent x" by (simp add: exponent_def)
  then have q: "quantum (- x) = quantum x" by (simp add: quantum_def)
  show ?thesis by (simp add: to_double_def q round_half_even_minus)
qed

lemma to_double_of_int:
  assumes "\<bar>k\<bar> < 2 ^ 53"
  shows "to_double (of_int k) = of_int k"
proof (cases "k = 0")
  case True
  then show ?thesis by simp
next
  case False
  define x :: rat where "x = of_int k"
  have x: "x \<noteq> 0" using False by (simp add: x_def)
  have "\<bar>x\<bar> < of_int (2 ^ 53)" unfolding x_def using assms by (simp only: of_int_abs [symmetric] of_int_less_iff)
  then have "2 powi exponent x < (2 :: rat) powi 53"
    using exponent_bounds(1) [OF x] by simp
  then have e: "exponent x < 53"
    by (metis not_less power_int_increasing one_le_numeral)
  define p where "p = max (exponent x - 52) emin"
  have p: "p \<le> 0" using e by (simp add: p_def emin_def)
  have q: "quantum x = 2 powi p" by (simp add: quantum_def p_def)
  have "x / quantum x = x * 2 powi (- p)" by (simp add: q power_int_minus field_simps)
  also have "\<dots> = of_int k * 2 ^ nat (- p)" using p by (simp add: x_def power_int_nonneg_exp)
  also have "\<dots> = of_int (k * 2 ^ nat (- p))" by simp
  finally have "round_half_even (x / quantum x) = k * 2 ^ nat (- p)"
    by (simp only: round_half_even_of_int)
  then have "to_double x = of_int (k * 2 ^ nat (- p)) * 2 powi p" by (simp add: to_double_def q)
  also have "\<dots> = of_int k * (2 powi (- p) * 2 powi p)" using p by (simp add: power_int_nonneg_exp)
  also have "2 powi (- p) * 2 powi p = (1 :: rat)" by (simp add: power_int_minus)
  finally show ?thesis by (simp add: x_def)
qed

lemma to_double_close:
  assumes "0 \<le> a" "a < 2 ^ 53" "1 \<le> b" "b < 2 ^ 53"
  shows "\<bar>to_double (of_int a / of_int b) - of_int a / of_int b\<bar> < 1 / of_int b"
proof -
  let ?q = "of_int a / of_int b :: rat"
  have b: "0 < (of_int b :: rat)" using assms(3) by simp
  have q0: "0 \<le> ?q" using assms(1) b by simp
  have "(of_int a :: rat) < of_int (2 ^ 53)" using assms(2) by (simp only: of_int_less_iff)
  then have "of_int a * 2 powi (- 53) < (1 :: rat)" by (simp add: field_simps)
  then have 1: "\<bar>?q\<bar> * 2 powi (- 53) < 1 / of_int b"
    using b q0 by (simp add: field_simps)
  have "(of_int b :: rat) < of_int (2 ^ 53)" using assms(4) by (simp only: of_int_less_iff)
  then have "(2 :: rat) powi (- 53) < 1 / of_int b" using b by (simp add: field_simps)
  moreover have "(2 :: rat) powi (emin - 1) < 2 powi (- 53)"
    by (intro power_int_strict_increasing) (simp_all add: emin_def)
  ultimately have 2: "2 powi (emin - 1) < 1 / (of_int b :: rat)" by simp
  have "\<bar>to_double ?q - ?q\<bar> \<le> max (\<bar>?q\<bar> * 2 powi (- 53)) (2 powi (emin - 1))"
    by (rule to_double_error)
  also have "\<dots> < 1 / of_int b" using 1 2 by simp
  finally show ?thesis .
qed

lemma floor_double_divide_nonneg:
  assumes "0 \<le> a" "a < 2 ^ 53" "1 \<le> b" "b < 2 ^ 53"
  shows "\<lfloor>to_double (of_int a / of_int b)\<rfloor> = a div b"
proof -
  let ?q = "of_int a / of_int b :: rat"
  define k where "k = a div b"
  have b: "0 < (of_int b :: rat)" "0 < b" using assms(3) by simp_all
  have k0: "0 \<le> k" using assms(1) b(2) by (simp add: k_def pos_imp_zdiv_nonneg_iff)
  have dm: "a = b * k + a mod b" by (simp add: k_def)
  have m0: "0 \<le> a mod b" "a mod b < b" using b(2) by simp_all
  have "1 * k \<le> b * k" using assms(3) k0 by (rule mult_right_mono)
  then have ka: "k \<le> a" using dm m0(1) by simp
  have kq: "of_int k \<le> ?q" unfolding k_def using floor_divide_of_int_eq [of a b, where ?'a = rat]
    of_int_floor_le [of ?q] by simp
  have "to_double (of_int k) \<le> to_double ?q" using k0 kq by (intro to_double_mono) simp_all
  moreover have "to_double (of_int k) = of_int k" using k0 ka assms(2) by (intro to_double_of_int) simp
  ultimately have lo: "of_int k \<le> to_double ?q" by simp
  have "a < b * (k + 1)" using dm m0(2) by (simp add: algebra_simps)
  then have "a + 1 \<le> b * (k + 1)" by simp
  then have "(of_int (a + 1) :: rat) \<le> of_int (b * (k + 1))" by (simp only: of_int_le_iff)
  then have "?q + 1 / of_int b \<le> of_int k + 1" using b(1) by (simp add: field_simps)
  moreover have "to_double ?q < ?q + 1 / of_int b"
    using to_double_close [OF assms] by (simp add: abs_less_iff)
  ultimately have hi: "to_double ?q < of_int k + 1" by simp
  from lo hi have "\<lfloor>to_double ?q\<rfloor> = k" by (simp add: floor_unique)
  then show ?thesis by (simp add: k_def)
qed

lemma ceiling_double_divide_nonneg:
  assumes "0 \<le> a" "a < 2 ^ 53" "1 \<le> b" "b < 2 ^ 53"
  shows "\<lceil>to_double (of_int a / of_int b)\<rceil> = \<lceil>of_int a / of_int b :: rat\<rceil>"
proof -
  let ?q = "of_int a / of_int b :: rat"
  define c where "c = \<lceil>?q\<rceil>"
  have b: "0 < (of_int b :: rat)" "0 < b" using assms(3) by simp_all
  have q0: "0 \<le> ?q" using assms(1) b(1) by simp
  have c0: "0 \<le> c" using q0 by (simp add: c_def)
  have qa: "?q \<le> of_int a"
  proof -
    have "of_int a * 1 \<le> (of_int a :: rat) * of_int b"
      using assms(1,3) by (intro mult_left_mono) simp_all
    then show ?thesis using b(1) by (simp add: field_simps)
  qed
  then have "c \<le> a" by (simp add: c_def ceiling_le_iff)
  then have rep: "to_double (of_int c) = of_int c"
    using c0 assms(2) by (intro to_double_of_int) simp
  have "?q \<le> of_int c" by (simp add: c_def)
  then have "to_double ?q \<le> to_double (of_int c)" using q0 by (intro to_double_mono)
  then have hi: "to_double ?q \<le> of_int c" by (simp only: rep)
  have "c - 1 < \<lceil>?q\<rceil>" by (simp add: c_def)
  then have "of_int (c - 1) < ?q" by (simp only: less_ceiling_iff)
  then have "of_int (b * (c - 1)) < (of_int a :: rat)" using b(1) by (simp add: field_simps)
  then have "b * (c - 1) < a" by (simp only: of_int_less_iff)
  then have "b * (c - 1) + 1 \<le> a" by simp
  then have "(of_int (b * (c - 1) + 1) :: rat) \<le> of_int a" by (simp only: of_int_le_iff)
  then have "(of_int (b * (c - 1) + 1) :: rat) / of_int b \<le> ?q"
    using b(1) by (intro divide_right_mono) simp_all
  moreover have "(of_int (b * (c - 1) + 1) :: rat) / of_int b = of_int c - 1 + 1 / of_int b"
    using b(1) by (simp add: field_simps)
  ultimately have "of_int c - 1 + 1 / of_int b \<le> ?q" by simp
  moreover have "?q - 1 / of_int b < to_double ?q"
    using to_double_close [OF assms] by (simp add: abs_less_iff)
  ultimately have lo: "of_int c - 1 < to_double ?q" by simp
  from lo hi have "\<lceil>to_double ?q\<rceil> = c" by (rule ceiling_unique)
  then show ?thesis by (simp add: c_def)
qed

lemma floor_double_divide:
  assumes "\<bar>a\<bar> < 2 ^ 53" "1 \<le> b" "b < 2 ^ 53"
  shows "\<lfloor>to_double (of_int a / of_int b)\<rfloor> = a div b"
proof (cases "0 \<le> a")
  case True
  then show ?thesis using assms by (intro floor_double_divide_nonneg) simp_all
next
  case False
  then have a: "0 \<le> - a" "- a < 2 ^ 53" using assms(1) by simp_all
  have "to_double (of_int a / of_int b) = - to_double (of_int (- a) / of_int b)"
    using to_double_minus [of "of_int (- a) / of_int b"] by simp
  then have "\<lfloor>to_double (of_int a / of_int b)\<rfloor> = - \<lceil>to_double (of_int (- a) / of_int b)\<rceil>"
    by (simp add: ceiling_def)
  also have "\<dots> = - \<lceil>of_int (- a) / of_int b :: rat\<rceil>"
    using ceiling_double_divide_nonneg [OF a assms(2,3)] by simp
  also have "\<dots> = a div b"
    using ceiling_divide_eq_div [of "- a" b, where ?'a = rat] by simp
  finally show ?thesis .
qed

section \<open>Loops in closed form\<close>

declare coordinates_loop.simps [simp del]
declare decoy_loop.simps [simp del]
declare trace_loop.simps [simp del]
declare captcha_loop.simps [simp del]

lemma getRandom_eq: "getRandom n r = (getRandom_of n (r 0), \<lambda>i. r (Suc i))"
  by (simp add: getRandom_def getRandom_of_def Math_random_def)

lemma upt_0_Suc_map: "map f [0..<Suc m] = f 0 # map (\<lambda>k. f (Suc k)) [0..<m]"
  by (simp add: upt_conv_Cons map_Suc_upt [symmetric] del: upt_Suc)

lemma coordinates_loop_eq:
  "coordinates_loop W H n i cs r =
     (cs @ map (\<lambda>k. (slot_x (W div n) (i + int k), getRandom_of H (r k)))
             [0..<nat (n - i)],
      \<lambda>j. r (j + nat (n - i)))"
proof (induction W H n i cs r rule: coordinates_loop.induct)
  case (1 W H n i cs r)
  show ?case
  proof (cases "i < n")
    case False
    then show ?thesis by (simp add: coordinates_loop.simps [of W H n i])
  next
    case True
    then have m: "nat (n - i) = Suc (nat (n - (i + 1)))" by simp
    have step: "coordinates_loop W H n i cs r =
        coordinates_loop W H n (i + 1)
          (cs @ [(slot_x (W div n) i, getRandom_of H (r 0))])
          (\<lambda>j. r (Suc j))"
      using True by (simp add: coordinates_loop.simps [of W H n i] getRandom_eq slot_x_def)
    have ih: "coordinates_loop W H n (i + 1)
          (cs @ [(slot_x (W div n) i, getRandom_of H (r 0))])
          (\<lambda>j. r (Suc j)) =
        ((cs @ [(slot_x (W div n) i, getRandom_of H (r 0))]) @
           map (\<lambda>k. (slot_x (W div n) (i + 1 + int k), getRandom_of H (r (Suc k))))
             [0..<nat (n - (i + 1))],
         \<lambda>j. r (Suc (j + nat (n - (i + 1)))))"
      using "1.IH" [OF True refl refl, of "getRandom_of H (r 0)" "\<lambda>j. r (Suc j)"]
      by (simp add: getRandom_eq slot_x_def)
    have shift: "(\<lambda>k. (slot_x (W div n) (i + 1 + int k), getRandom_of H (r (Suc k))))
       = (\<lambda>k. (slot_x (W div n) (i + int (Suc k)) :: rat, getRandom_of H (r (Suc k))))"
      by (simp add: add.commute add.left_commute)
    show ?thesis
      unfolding step ih m upt_0_Suc_map shift
      by simp
  qed
qed

lemma decoy_loop_eq:
  "decoy_loop s W H i canvas r =
     (canvas @ map (\<lambda>k. PrintText (Some (s ! (i + k)))
                          (of_int (getRandom_of W (r (2 * k))))
                          (getRandom_of H (r (2 * k + 1))))
                 [0..<length s - i],
      \<lambda>j. r (j + 2 * (length s - i)))"
proof (induction s W H i canvas r rule: decoy_loop.induct)
  case (1 s W H i canvas r)
  show ?case
  proof (cases "i < length s")
    case False
    then show ?thesis by (simp add: decoy_loop.simps [of s W H i])
  next
    case True
    then have m: "length s - i = Suc (length s - (i + 1))" by simp
    let ?op = "PrintText (Some (s ! i)) (of_int (getRandom_of W (r 0))) (getRandom_of H (r (Suc 0)))"
    have step: "decoy_loop s W H i canvas r =
        decoy_loop s W H (i + 1) (canvas @ [?op]) (\<lambda>j. r (Suc (Suc j)))"
      using True by (simp add: decoy_loop.simps [of s W H i] getRandom_eq char_at_def)
    have ih: "decoy_loop s W H (i + 1) (canvas @ [?op]) (\<lambda>j. r (Suc (Suc j))) =
        ((canvas @ [?op]) @
           map (\<lambda>k. PrintText (Some (s ! (i + 1 + k)))
                          (of_int (getRandom_of W (r (Suc (Suc (2 * k))))))
                          (getRandom_of H (r (Suc (Suc (2 * k + 1))))))
             [0..<length s - (i + 1)],
         \<lambda>j. r (Suc (Suc (j + 2 * (length s - (i + 1))))))"
      using "1.IH" [OF True, of "getRandom_of W (r 0)" "\<lambda>j. r (Suc j)"
                      "getRandom_of H (r (Suc 0))" "\<lambda>j. r (Suc (Suc j))"]
      by (simp add: getRandom_eq char_at_def True)
    show ?thesis
      unfolding step ih m upt_0_Suc_map
      by simp
  qed
qed

lemma trace_loop_eq:
  "trace_loop cs i canvas = (canvas @ map (\<lambda>(x, y). LineTo x y) (drop i cs), None)"
proof (induction cs i canvas rule: trace_loop.induct)
  case (1 cs i canvas)
  show ?case
  proof (cases "i < length cs")
    case False
    then show ?thesis by (simp add: trace_loop.simps [of cs i])
  next
    case True
    obtain x y where xy: "cs ! i = (x, y)" by (cases "cs ! i")
    have "trace_loop cs i canvas = trace_loop cs (i + 1) (canvas @ [LineTo x y])"
      using True xy by (simp add: trace_loop.simps [of cs i] coordinate_at_def)
    also have "\<dots> = ((canvas @ [LineTo x y]) @ map (\<lambda>(x, y). LineTo x y) (drop (i + 1) cs), None)"
      using "1.IH" [OF True _ refl, of x y] True xy by (simp add: coordinate_at_def)
    also have "drop i cs = (x, y) # drop (i + 1) cs"
      using True xy by (simp add: Cons_nth_drop_Suc [symmetric])
    then have "((canvas @ [LineTo x y]) @ map (\<lambda>(x, y). LineTo x y) (drop (i + 1) cs), None :: error option)
        = (canvas @ map (\<lambda>(x, y). LineTo x y) (drop i cs), None)" by simp
    finally show ?thesis .
  qed
qed

lemma captcha_loop_eq:
  "captcha_loop s cs n canvas =
     (canvas @ map (\<lambda>k. PrintText (char_at s k) (fst (cs ! k)) (snd (cs ! k))) [n..<length cs], None)"
proof (induction s cs n canvas rule: captcha_loop.induct)
  case (1 s cs n canvas)
  show ?case
  proof (cases "n < length cs")
    case False
    then show ?thesis by (simp add: captcha_loop.simps [of s cs n])
  next
    case True
    obtain x y where xy: "cs ! n = (x, y)" by (cases "cs ! n")
    have "captcha_loop s cs n canvas = captcha_loop s cs (n + 1) (canvas @ [PrintText (char_at s n) x y])"
      using True xy by (simp add: captcha_loop.simps [of s cs n] coordinate_at_def)
    also have "\<dots> = ((canvas @ [PrintText (char_at s n) x y]) @
         map (\<lambda>k. PrintText (char_at s k) (fst (cs ! k)) (snd (cs ! k))) [n + 1..<length cs], None)"
      using "1.IH" [OF True _ refl, of x y] True xy by (simp add: coordinate_at_def)
    also have "\<dots> = (canvas @ map (\<lambda>k. PrintText (char_at s k) (fst (cs ! k)) (snd (cs ! k))) [n..<length cs], None)"
      using True xy by (simp add: upt_conv_Cons del: upt_Suc)
    finally show ?thesis .
  qed
qed

section \<open>The challenge text (constructor)\<close>

lemma nat_less_16:
  "d < 16 \<Longrightarrow> d \<in> {0, 1, 2, 3, 4, 5, 6, 7, 8, 9, 10, 11, 12, 13, 14, 15 :: nat}"
  by (simp add: insert_iff) arith

lemma hex_digit_upper_letter:
  assumes "d < 16"
  shows "set (replace_non_letters (toUpperCase [hex_digit d])) \<subseteq> set ''ABCDEF''"
  using nat_less_16 [OF assms]
  by (elim insertE emptyE;
      simp add: hex_digit_def toUpperCase_def replace_non_letters_def is_lower_def is_upper_def
        upper_of_def)

lemma byte_nibbles: "unat (b :: byte) div 16 < 16" "unat b mod 16 < 16"
proof -
  have "unat b < 256" using unsigned_less [of b] by simp
  then show "unat b div 16 < 16" by simp
  show "unat b mod 16 < 16" by simp
qed

lemma replace_non_letters_append:
  "replace_non_letters (xs @ ys) = replace_non_letters xs @ replace_non_letters ys"
  by (simp add: replace_non_letters_def)

lemma toUpperCase_append: "toUpperCase (xs @ ys) = toUpperCase xs @ toUpperCase ys"
  by (simp add: toUpperCase_def)

lemma toString_hex_Cons:
  "toString_hex (b # bs) = [hex_digit (unat b div 16)] @ [hex_digit (unat b mod 16)] @ toString_hex bs"
  by (simp add: toString_hex_def)

lemma hex_letters_alphabet:
  "set (replace_non_letters (toUpperCase (toString_hex bs))) \<subseteq> set ''ABCDEF''"
proof (induction bs)
  case Nil
  show ?case by (simp add: toString_hex_def toUpperCase_def replace_non_letters_def)
next
  case (Cons b bs)
  have hi: "set (replace_non_letters (toUpperCase [hex_digit (unat b div 16)])) \<subseteq> set ''ABCDEF''"
    by (rule hex_digit_upper_letter) (rule byte_nibbles)
  have lo: "set (replace_non_letters (toUpperCase [hex_digit (unat b mod 16)])) \<subseteq> set ''ABCDEF''"
    by (rule hex_digit_upper_letter) (rule byte_nibbles)
  show ?case
    unfolding toString_hex_Cons toUpperCase_append replace_non_letters_append set_append
    using hi lo Cons.IH by blast
qed

lemma length_toString_hex: "length (toString_hex bs) = 2 * length bs"
  by (induction bs) (simp_all add: toString_hex_def)

lemma random_text_alphabet: "set (random_text bytes n) \<subseteq> set ''ABCDEF''"
proof -
  have "set (random_text bytes n) \<subseteq> set (replace_non_letters (toUpperCase (toString_hex bytes)))"
    unfolding random_text_def substr0_def by (rule set_take_subset)
  then show ?thesis using hex_letters_alphabet [of bytes] by (rule subset_trans)
qed

lemma random_text_length:
  "length (random_text bytes n) =
     min (nat n) (length (replace_non_letters (toUpperCase (toString_hex bytes))))"
  by (simp add: random_text_def substr0_def min.commute)

lemma randomBytes_32: "randomBytes 32 e = Inr (map e [0..<32], \<lambda>i. e (i + 32))"
  by (simp add: randomBytes_def)

lemma CaptchaGenerator_eq:
  "CaptchaGenerator tr dc opts w =
     Inr (\<lparr>height = or_default (opt_height opts) 100, width = or_default (opt_width opts) 300,
           captcha = defaultCaptchaOptions, trace = tr, decoy = dc, background = None\<rparr>,
          w\<lparr>captcha_heap := (captcha_heap w)
               (defaultCaptchaOptions := (captcha_heap w defaultCaptchaOptions)
                  \<lparr>captcha_text := random_text (map (entropy w) [0..<32])
                                     (captcha_characters (captcha_heap w defaultCaptchaOptions))\<rparr>),
             entropy := \<lambda>i. entropy w (i + 32)\<rparr>)"
  unfolding CaptchaGenerator_def randomBytes_32 by (simp add: Let_def)

lemma zero_text: "random_text (map (\<lambda>i. 0) [0..<32]) 6 = []"
  by code_simp

text \<open>
  C1. The claim: the text produced at construction has exactly \<open>characters\<close>
  characters, all of them in \<open>{A, ..., F}\<close>. The alphabet part holds
  (\<open>random_text_alphabet\<close>), and the length is the smaller of \<open>characters\<close> and the
  number of letters among the 64 hex digits (\<open>random_text_length\<close>). When the 32 random
  bytes are all zero the hex string has no letter: the constructor stores the empty
  text while \<open>characters\<close> stays 6.
\<close>

theorem constructor_text_shorter_than_characters:
  "\<exists>this w. CaptchaGenerator sample_trace sample_decoy no_options (sample_world 0) = Inr (this, w)
      \<and> characters this w = 6 \<and> get_text this w = [] \<and> int (length (get_text this w)) \<noteq> characters this w"
  unfolding CaptchaGenerator_eq
  by (simp add: sample_world_def module_init_def sample_captcha_def zero_text get_text_def characters_def)

section \<open>Layout\<close>

lemma getRandom_of_bounds:
  assumes H: "60 < H" and u: "0 \<le> u" "u < 1" "to_double u = u"
  shows "30 \<le> getRandom_of H u" "getRandom_of H u < H - 30"
proof -
  have m: "1 \<le> (of_int (H - 60) :: rat)" using H by simp
  have "0 \<le> u * of_int (H - 60)" using u(1) m by simp
  then have "0 \<le> to_double (u * of_int (H - 60))" by (rule to_double_nonneg)
  then have "0 \<le> \<lfloor>to_double (u * of_int (H - 60))\<rfloor>" by simp
  then show "30 \<le> getRandom_of H u" by (simp add: getRandom_of_def)
  have "u \<le> 1 - 2 powi (- 53)" using u by (rule double_below_one)
  with u(1) have "to_double (u * of_int (H - 60)) < of_int (H - 60)"
    using m by (rule to_double_product_below)
  then have "\<lfloor>to_double (u * of_int (H - 60))\<rfloor> < H - 60" by (simp only: floor_less_iff)
  then show "getRandom_of H u < H - 30" by (simp add: getRandom_of_def)
qed

lemma layout_eq:
  "layout W H n r =
     (sort_key fst (map (\<lambda>k. (slot_x (W div n) (int k), getRandom_of H (r k))) [0..<nat n]),
      \<lambda>j. r (j + nat n))"
  by (simp add: layout_def coordinates_loop_eq)

lemma layout_y:
  assumes "c \<in> set (fst (layout W H n r))"
  shows "\<exists>k. snd c = getRandom_of H (r k)"
  using assms by (auto simp: layout_eq)

text \<open>
  C6. For a canvas height \<open>H > 60\<close>, and \<^verbatim>\<open>Math.random()\<close> results that are binary64
  numbers in \<open>[0, 1)\<close>, \<open>getRandom H\<close> is an integer \<open>y\<close> with \<open>30 \<le> y < H - 30\<close>, and so
  is the y-coordinate of every coordinate of the layout. The product
  \<^verbatim>\<open>Math.random()*(H - 60)\<close> is rounded: the upper bound holds because the largest
  result of \<^verbatim>\<open>Math.random()\<close> is \<open>1 - 2^-53\<close> and rounding moves a number by at most the
  fraction \<open>2^-53\<close> of itself.
\<close>

theorem layout_y_in_range:
  assumes "60 < H" and "unit_interval r"
  shows "(30 \<le> fst (getRandom H r) \<and> fst (getRandom H r) < H - 30) \<and>
         (\<forall>c \<in> set (fst (layout W H n r)). 30 \<le> snd c \<and> snd c < H - 30)"
proof
  have u: "0 \<le> r k" "r k < 1" "to_double (r k) = r k" for k
    using assms(2) by (simp_all add: unit_interval_def)
  show "30 \<le> fst (getRandom H r) \<and> fst (getRandom H r) < H - 30"
    using getRandom_of_bounds [OF assms(1) u [of 0]] by (simp add: getRandom_eq)
  show "\<forall>c \<in> set (fst (layout W H n r)). 30 \<le> snd c \<and> snd c < H - 30"
  proof
    fix c assume "c \<in> set (fst (layout W H n r))"
    then obtain k where k: "snd c = getRandom_of H (r k)"
      using layout_y by blast
    show "30 \<le> snd c \<and> snd c < H - 30"
      unfolding k using getRandom_of_bounds [OF assms(1) u [of k]] by simp
  qed
qed

lemma double_half: "to_double (1 / 2) = 1 / 2"
  by code_simp

lemma sample_getRandom: "getRandom_of 100 (1 / 2) = 50" "getRandom_of 300 (1 / 2) = 150"
  by code_simp+

lemma double_seven_tenths: "to_double (7 / 10) = 3152519739159347 / 4503599627370496"
  by code_simp

lemma getRandom_rounds_up: "getRandom_of 70 (3152519739159347 / 4503599627370496) = 37"
  by code_simp

lemma sample_slots:
  "slot_x 50 0 = 10" "slot_x 50 1 = 60" "slot_x 50 2 = 7740561859543041 / 70368744177664"
  "slot_x 50 3 = 160" "slot_x 50 4 = 210" "slot_x 50 5 = 260"
  by code_simp+

lemma sample_layout:
  "fst (layout 300 100 6 (\<lambda>i. 1 / 2)) =
     [(10, 50), (60, 50), (7740561859543041 / 70368744177664, 50), (160, 50), (210, 50), (260, 50)]"
  by (simp add: layout_eq upt_rec sample_slots sample_getRandom)

lemma seven_tenths_is_double:
  "to_double (3152519739159347 / 4503599627370496) = 3152519739159347 / 4503599627370496"
  by code_simp

theorem layout_y_in_range_witness:
  "(60 :: int) < 100 \<and> unit_interval (\<lambda>i. 1 / 2) \<and>
   fst (getRandom 100 (\<lambda>i. 1 / 2)) = 50 \<and>
   30 \<le> fst (getRandom 100 (\<lambda>i. 1 / 2)) \<and> fst (getRandom 100 (\<lambda>i. 1 / 2)) < 100 - 30 \<and>
   list_all (\<lambda>c. 30 \<le> snd c \<and> snd c < 100 - 30) (fst (layout 300 100 6 (\<lambda>i. 1 / 2))) \<and>
   (60 :: int) < 70 \<and> unit_interval (\<lambda>i. to_double (7 / 10)) \<and>
   fst (getRandom 70 (\<lambda>i. to_double (7 / 10))) = 37 \<and>
   fst (getRandom 70 (\<lambda>i. to_double (7 / 10))) < 70 - 30"
proof -
  have h: "(60 :: int) < 100" by simp
  have u: "unit_interval (\<lambda>i. 1 / 2)" by (simp add: unit_interval_def double_half)
  have v: "fst (getRandom 100 (\<lambda>i. 1 / 2)) = 50" by (simp add: getRandom_eq sample_getRandom)
  have h': "(60 :: int) < 70" by simp
  have u': "unit_interval (\<lambda>i. to_double (7 / 10))"
    by (simp add: unit_interval_def double_seven_tenths seven_tenths_is_double)
  have v': "fst (getRandom 70 (\<lambda>i. to_double (7 / 10))) = 37"
    by (simp add: getRandom_eq double_seven_tenths getRandom_rounds_up)
  show ?thesis
    using layout_y_in_range [OF h u, of 300 6] layout_y_in_range [OF h' u', of 300 6] h u v h' u' v'
    by (simp add: list_all_iff)
qed

lemma double_fifth: "to_double (1 / 5) = 1 / 5 + 1 / 90071992547409920"
  by code_simp

lemma slot_x_error:
  assumes "0 \<le> i"
  shows "\<bar>slot_x g i - of_int g * (of_int i + 2 / 10)\<bar> \<le> \<bar>of_int g * (of_int i + 2 / 10)\<bar> * 2 powi (- 51)"
proof -
  define eps :: rat where "eps = 2 powi (- 53)"
  define t :: rat where "t = of_int i + 2 / 10"
  define a :: rat where "a = of_int i + to_double (2 / 10)"
  define s where "s = to_double a"
  define G :: rat where "G = \<bar>of_int g\<bar>"
  have eps: "0 < eps" "eps \<le> 1 / 2" by (simp_all add: eps_def)
  have t: "1 / 5 \<le> t" using assms by (simp add: t_def)
  have at: "a = t + 1 / 90071992547409920" by (simp add: a_def t_def double_fifth)
  have "1 / 90071992547409920 \<le> t * (eps / 2)" using t by (simp add: eps_def)
  then have a_hi: "a \<le> t + t * (eps / 2)" and a_lo: "t \<le> a" by (simp_all add: at)
  have a16: "1 / 16 \<le> \<bar>a\<bar>" using a_lo t by simp
  have a0: "0 \<le> a" using a_lo t by simp
  have sa: "\<bar>s - a\<bar> \<le> a * eps"
    using to_double_error_normal [OF a16] a0 by (simp add: s_def eps_def)
  then have s_hi: "s \<le> a + a * eps" and s_lo: "a - a * eps \<le> s" by (simp_all add: abs_le_iff)
  have "a * eps \<le> a * (1 / 2)" using eps(2) a0 by (rule mult_left_mono)
  then have s_half: "a / 2 \<le> s" using s_lo by simp
  then have s0: "0 \<le> s" using a0 by simp
  have G0: "0 \<le> G" by (simp add: G_def)
  have xs: "\<bar>slot_x g i - of_int g * s\<bar> \<le> G * s * eps"
  proof (cases "g = 0")
    case True
    then show ?thesis by (simp add: slot_x_def G_def)
  next
    case False
    then have "1 \<le> G" by (simp add: G_def)
    then have "1 * s \<le> G * s" using s0 by (rule mult_right_mono)
    then have gs: "s \<le> G * s" by (simp only: mult_1)
    have "1 / 16 \<le> s" using s_half a_lo t by simp
    then have "1 / 16 \<le> G * s" using gs by (rule order_trans)
    moreover have "\<bar>of_int g * s\<bar> = G * s" using s0 by (simp add: abs_mult G_def)
    ultimately have "1 / 16 \<le> \<bar>of_int g * s\<bar>" by (simp only:)
    then have "\<bar>to_double (of_int g * s) - of_int g * s\<bar> \<le> \<bar>of_int g * s\<bar> * 2 powi (- 53)"
      by (rule to_double_error_normal)
    then show ?thesis using s0 by (simp add: slot_x_def s_def a_def abs_mult G_def eps_def)
  qed
  have "slot_x g i - of_int g * t = (slot_x g i - of_int g * s) + of_int g * (s - a) + of_int g * (a - t)"
    by (simp add: algebra_simps)
  then have "\<bar>slot_x g i - of_int g * t\<bar> \<le>
      \<bar>slot_x g i - of_int g * s\<bar> + \<bar>of_int g * (s - a)\<bar> + \<bar>of_int g * (a - t)\<bar>"
    by (simp only: abs_triangle_ineq [THEN order_trans] abs_triangle_ineq add_mono order_refl)
  also have "\<dots> = \<bar>slot_x g i - of_int g * s\<bar> + G * \<bar>s - a\<bar> + G * (a - t)"
    using a_lo by (simp add: abs_mult G_def)
  also have "\<dots> \<le> G * s * eps + G * (a * eps) + G * (t * (eps / 2))"
    using xs sa a_hi G0 by (intro add_mono mult_left_mono) simp_all
  also have "\<dots> = G * (s * eps + a * eps + t * (eps / 2))" by (simp add: algebra_simps)
  also have "\<dots> \<le> G * (t * (4 * eps))"
  proof (rule mult_left_mono [OF _ G0])
    have a2: "a \<le> t * (1 + eps / 2)" using a_hi by (simp add: algebra_simps)
    have "t * (1 + eps / 2) \<le> t * (5 / 4)" using eps(2) t by (intro mult_left_mono) simp_all
    then have a54: "a \<le> t * (5 / 4)" using a2 by simp
    have "s \<le> a * (1 + eps)" using s_hi by (simp add: algebra_simps)
    also have "\<dots> \<le> a * (3 / 2)" using eps(2) a0 by (intro mult_left_mono) simp_all
    also have "\<dots> \<le> t * (5 / 4) * (3 / 2)" using a54 by simp
    finally have s158: "s \<le> t * (15 / 8)" by simp
    have "s * eps + a * eps + t * (eps / 2) \<le> t * (15 / 8) * eps + t * (5 / 4) * eps + t * (eps / 2)"
      using s158 a54 eps(1) by (intro add_mono mult_right_mono) simp_all
    also have "\<dots> = t * (29 / 8 * eps)" by (simp add: algebra_simps)
    also have "\<dots> \<le> t * (4 * eps)" using t eps(1) by (intro mult_left_mono) simp_all
    finally show "s * eps + a * eps + t * (eps / 2) \<le> t * (4 * eps)" .
  qed
  also have "\<dots> = \<bar>of_int g * t\<bar> * 2 powi (- 51)"
    using t by (simp add: abs_mult G_def eps_def)
  finally show ?thesis by (simp add: t_def)
qed

lemma slot_x_mono:
  assumes "0 \<le> g" "0 \<le> i" "i \<le> j"
  shows "slot_x g i \<le> slot_x g j"
proof -
  have c: "0 \<le> to_double (2 / 10)" by (rule to_double_nonneg) simp
  have "to_double (of_int i + to_double (2 / 10)) \<le> to_double (of_int j + to_double (2 / 10))"
    using assms c by (intro to_double_mono) simp_all
  moreover have s: "0 \<le> to_double (of_int i + to_double (2 / 10))"
    using assms c by (intro to_double_nonneg) simp
  ultimately have "of_int g * to_double (of_int i + to_double (2 / 10)) \<le>
      of_int g * to_double (of_int j + to_double (2 / 10))"
    using assms(1) by (intro mult_left_mono) simp_all
  moreover have "0 \<le> of_int g * to_double (of_int i + to_double (2 / 10))"
    using assms(1) s by simp
  ultimately show ?thesis unfolding slot_x_def by (intro to_double_mono)
qed

lemma slots_sorted:
  assumes "0 \<le> g"
  shows "sorted (map (\<lambda>k. slot_x g (int k)) [0..<m])"
  unfolding sorted_iff_nth_mono
  using assms by (auto intro!: slot_x_mono)

text \<open>
  C5. For a character count \<open>n \<ge> 1\<close>, any width \<open>W\<close> and height \<open>H\<close>: the loop of
  \<open>generate\<close> produces exactly \<open>n\<close> coordinates, the \<open>i\<close>-th with x-coordinate
  \<open>\<lfloor>W / n\<rfloor> * (i + 0.2)\<close>, evaluated as the program evaluates it (the literal, the sum
  and the product each rounded to binary64), which is within the fraction \<open>2^-51\<close> of
  the exact product; the sorted list has the same \<open>n\<close> coordinates with
  non-decreasing x, and for \<open>W \<ge> 0\<close> the sort changes nothing.
\<close>

theorem layout_coordinates:
  assumes "1 \<le> n"
  shows "length (fst (coordinates_loop W H n 0 [] r)) = nat n \<and>
         (\<forall>i < nat n. fst (fst (coordinates_loop W H n 0 [] r) ! i) =
            to_double (of_int (W div n) * to_double (of_nat i + to_double (2 / 10)))) \<and>
         (\<forall>i < nat n. \<bar>fst (fst (coordinates_loop W H n 0 [] r) ! i) - of_int (W div n) * (of_nat i + 2 / 10)\<bar>
            \<le> \<bar>of_int (W div n) * (of_nat i + 2 / 10)\<bar> * 2 powi (- 51)) \<and>
         length (fst (layout W H n r)) = nat n \<and>
         sorted (map fst (fst (layout W H n r))) \<and>
         set (fst (layout W H n r)) = set (fst (coordinates_loop W H n 0 [] r)) \<and>
         (0 \<le> W \<longrightarrow> fst (layout W H n r) = fst (coordinates_loop W H n 0 [] r))"
proof -
  let ?f = "\<lambda>k. (slot_x (W div n) (int k), getRandom_of H (r k))"
  have loop: "fst (coordinates_loop W H n 0 [] r) = map ?f [0..<nat n]"
    by (simp add: coordinates_loop_eq)
  have lay: "fst (layout W H n r) = sort_key fst (map ?f [0..<nat n])"
    by (simp add: layout_eq)
  have 1: "length (fst (coordinates_loop W H n 0 [] r)) = nat n" by (simp add: loop)
  have x: "fst (fst (coordinates_loop W H n 0 [] r) ! i) = slot_x (W div n) (int i)" if "i < nat n" for i
    using that by (simp add: loop)
  have 2: "\<forall>i < nat n. fst (fst (coordinates_loop W H n 0 [] r) ! i) =
      to_double (of_int (W div n) * to_double (of_nat i + to_double (2 / 10)))"
    by (simp add: x slot_x_def)
  have 3: "\<forall>i < nat n. \<bar>fst (fst (coordinates_loop W H n 0 [] r) ! i) - of_int (W div n) * (of_nat i + 2 / 10)\<bar>
      \<le> \<bar>of_int (W div n) * (of_nat i + 2 / 10)\<bar> * 2 powi (- 51)"
  proof (intro allI impI)
    fix i assume "i < nat n"
    then show "\<bar>fst (fst (coordinates_loop W H n 0 [] r) ! i) - of_int (W div n) * (of_nat i + 2 / 10)\<bar>
        \<le> \<bar>of_int (W div n) * (of_nat i + 2 / 10)\<bar> * 2 powi (- 51)"
      using slot_x_error [of "int i" "W div n"] by (simp add: x)
  qed
  have 4: "length (fst (layout W H n r)) = nat n" by (simp add: lay)
  have 5: "sorted (map fst (fst (layout W H n r)))" unfolding lay by (rule sorted_sort_key)
  have 6: "set (fst (layout W H n r)) = set (fst (coordinates_loop W H n 0 [] r))"
    unfolding lay loop by (rule set_sort)
  have 7: "fst (layout W H n r) = fst (coordinates_loop W H n 0 [] r)" if "0 \<le> W"
  proof -
    have "0 \<le> W div n" using that assms by (simp add: pos_imp_zdiv_nonneg_iff)
    then have "sorted (map (\<lambda>k. slot_x (W div n) (int k)) [0..<nat n])"
      by (rule slots_sorted)
    then have "sorted (map fst (map ?f [0..<nat n]))" by (simp add: o_def)
    then show ?thesis unfolding lay loop by (rule sort_key_id_if_sorted)
  qed
  from 1 2 3 4 5 6 7 show ?thesis by blast
qed

theorem layout_coordinates_witness:
  "(1 :: int) \<le> 6 \<and> (0 :: int) \<le> 300 \<and>
   length (fst (coordinates_loop 300 100 6 0 [] (\<lambda>i. 1 / 2))) = 6 \<and>
   map fst (fst (coordinates_loop 300 100 6 0 [] (\<lambda>i. 1 / 2))) =
     [10, 60, 7740561859543041 / 70368744177664, 160, 210, 260] \<and>
   to_double (of_int (300 div 6) * to_double (of_nat 2 + to_double (2 / 10))) =
     7740561859543041 / 70368744177664 \<and>
   sorted (map fst (fst (layout 300 100 6 (\<lambda>i. 1 / 2)))) \<and>
   fst (layout 300 100 6 (\<lambda>i. 1 / 2)) = fst (coordinates_loop 300 100 6 0 [] (\<lambda>i. 1 / 2))"
proof -
  have h: "(1 :: int) \<le> 6" by simp
  have v: "map fst (fst (coordinates_loop 300 100 6 0 [] (\<lambda>i. 1 / 2))) =
      [10, 60, 7740561859543041 / 70368744177664, 160, 210, 260]"
    by (simp add: coordinates_loop_eq upt_rec sample_slots)
  have x2: "to_double (of_int (300 div 6) * to_double (of_nat 2 + to_double (2 / 10))) =
      7740561859543041 / 70368744177664"
    using sample_slots(3) by (simp add: slot_x_def)
  show ?thesis
    using layout_coordinates [OF h, of 300 100 "\<lambda>i. 1 / 2"] v x2 by simp
qed

section \<open>The stages in closed form\<close>

lemma background_stage_eq:
  "background_stage resolveImage this canvas =
     (canvas @ background_calls resolveImage this,
      if background_fails resolveImage this then Some ImageError else None)"
  by (simp add: background_stage_def background_calls_def background_fails_def split: option.splits)

lemma randomBytes_eq:
  "randomBytes n e =
     (if n < 0 \<or> 2147483647 < n then Inl RangeError
      else Inr (map e [0..<nat n], \<lambda>i. e (i + nat n)))"
  by (simp add: randomBytes_def)

lemma decoy_stage_eq:
  "decoy_stage this canvas w =
     ((canvas @ decoy_calls this (entropy w) (math_random w),
       if decoy_fails this then Some RangeError else None),
      if 0 < decoy_opacity (decoy this) \<and> \<not> decoy_fails this
      then w\<lparr>entropy := \<lambda>i. entropy w (i + nat (decoyTextCount this)),
              math_random := \<lambda>j. math_random w (j + 2 * (2 * nat (decoyTextCount this)))\<rparr>
      else w)"
proof (cases "0 < decoy_opacity (decoy this)")
  case False
  then show ?thesis by (simp add: decoy_stage_def decoy_calls_def decoy_fails_def)
next
  case on: True
  show ?thesis
  proof (cases "decoy_fails this")
    case True
    then show ?thesis
      using on by (simp add: decoy_stage_def decoy_calls_def decoy_fails_def decoyTextCount_def randomBytes_eq)
  next
    case False
    then have ok: "\<not> (height this * width this div 10000 < 0 \<or> 2147483647 < height this * width this div 10000)"
      using on by (simp add: decoy_fails_def decoyTextCount_def)
    show ?thesis
      using on False ok
      by (simp add: decoy_stage_def decoy_calls_def decoy_glyphs_def decoyTextCount_def randomBytes_eq
          decoy_loop_eq length_toString_hex Let_def)
  qed
qed

lemma trace_stage_eq:
  "trace_stage this coordinates canvas =
     (canvas @ trace_calls this coordinates,
      if trace_fails this coordinates then Some TypeError else None)"
  by (cases coordinates)
     (auto simp: trace_stage_def trace_calls_def trace_fails_def coordinate_at_def trace_loop_eq Let_def)

lemma captcha_stage_eq:
  "captcha_stage c coordinates canvas = (canvas @ captcha_calls c coordinates, None)"
  by (simp add: captcha_stage_def captcha_calls_def captcha_loop_eq)

lemma generate_calls_eq:
  "fst (fst (generate resolveImage this w)) =
     [NewCanvas (width this) (height this), SetTextBaseline ''middle'', SetLineJoin ''miter''] @
     background_calls resolveImage this @
     (if background_fails resolveImage this then []
      else decoy_calls this (entropy w)
             (snd (layout (width this) (height this) (characters this w) (math_random w))) @
        (if decoy_fails this then []
         else trace_calls this (fst (layout (width this) (height this) (characters this w) (math_random w))) @
           (if trace_fails this (fst (layout (width this) (height this) (characters this w) (math_random w))) then []
            else captcha_calls (captcha_heap w (captcha this))
                   (fst (layout (width this) (height this) (characters this w) (math_random w))) @
                 [ToBuffer])))"
  by (cases "layout (width this) (height this) (characters this w) (math_random w)")
     (simp add: generate_def background_stage_eq decoy_stage_eq trace_stage_eq captcha_stage_eq Let_def)

lemma generate_outcome_eq:
  "snd (fst (generate resolveImage this w)) =
     (if background_fails resolveImage this then Some ImageError
      else if decoy_fails this then Some RangeError
      else if trace_fails this (fst (layout (width this) (height this) (characters this w) (math_random w)))
           then Some TypeError
      else None)"
  by (cases "layout (width this) (height this) (characters this w) (math_random w)")
     (simp add: generate_def background_stage_eq decoy_stage_eq trace_stage_eq captcha_stage_eq Let_def)

lemma generate_heap:
  "captcha_heap (snd (generate resolveImage this w)) = captcha_heap w"
  by (cases "layout (width this) (height this) (characters this w) (math_random w)")
     (simp add: generate_def background_stage_eq decoy_stage_eq trace_stage_eq captcha_stage_eq Let_def)

section \<open>Decoy glyphs\<close>

lemma filter_PrintText_decoy_glyphs:
  "filter is_PrintText (decoy_glyphs this e r) = decoy_glyphs this e r"
  by (simp add: decoy_glyphs_def Let_def filter_map o_def)

lemma length_decoy_glyphs: "length (decoy_glyphs this e r) = 2 * nat (decoyTextCount this)"
  by (simp add: decoy_glyphs_def Let_def length_toString_hex)

text \<open>
  C2, as amended. The claim counts \<open>\<lfloor>H * W / 10000\<rfloor>\<close> decoy glyphs. That number is the
  number of random bytes; the hex string has two characters per byte and the loop
  prints each of them. When the decoy stage runs (opacity above 0) and the byte count
  is one \<^verbatim>\<open>crypto.randomBytes\<close> accepts, the stage completes and issues
  \<open>2 * \<lfloor>H * W / 10000\<rfloor>\<close> text-draw calls; for any other byte count it throws
  \<open>RangeError\<close> before any call.
\<close>

theorem decoy_glyph_count:
  assumes "0 < decoy_opacity (decoy this)"
  shows "(0 \<le> height this * width this div 10000 \<and> height this * width this div 10000 \<le> 2147483647 \<longrightarrow>
            snd (fst (decoy_stage this canvas w)) = None \<and>
            int (length (filter is_PrintText (fst (fst (decoy_stage this canvas w))))) =
              int (length (filter is_PrintText canvas)) + 2 * (height this * width this div 10000)) \<and>
         (height this * width this div 10000 < 0 \<or> 2147483647 < height this * width this div 10000 \<longrightarrow>
            decoy_stage this canvas w = ((canvas, Some RangeError), w))"
proof (intro conjI impI)
  assume ok: "0 \<le> height this * width this div 10000 \<and> height this * width this div 10000 \<le> 2147483647"
  then have nf: "\<not> decoy_fails this" by (auto simp: decoy_fails_def decoyTextCount_def)
  then show "snd (fst (decoy_stage this canvas w)) = None" by (simp add: decoy_stage_eq)
  have "filter is_PrintText (fst (fst (decoy_stage this canvas w))) =
          filter is_PrintText canvas @ decoy_glyphs this (entropy w) (math_random w)"
    using assms nf by (simp add: decoy_stage_eq decoy_calls_def filter_PrintText_decoy_glyphs)
  then show "int (length (filter is_PrintText (fst (fst (decoy_stage this canvas w))))) =
      int (length (filter is_PrintText canvas)) + 2 * (height this * width this div 10000)"
    using ok by (simp add: length_decoy_glyphs decoyTextCount_def)
next
  assume "height this * width this div 10000 < 0 \<or> 2147483647 < height this * width this div 10000"
  then have "decoy_fails this" using assms by (simp add: decoy_fails_def decoyTextCount_def)
  then show "decoy_stage this canvas w = ((canvas, Some RangeError), w)"
    by (simp add: decoy_stage_eq decoy_calls_def)
qed

lemma sample_decoy_facts:
  "0 < decoy_opacity (decoy sample_generator)"
  "height sample_generator * width sample_generator div 10000 = 3"
  by (simp_all add: sample_generator_def sample_decoy_def)

theorem decoy_glyph_count_witness:
  "0 < decoy_opacity (decoy sample_generator) \<and>
   height sample_generator * width sample_generator div 10000 = 3 \<and>
   snd (fst (decoy_stage sample_generator [] (sample_world 0))) = None \<and>
   length (filter is_PrintText (fst (fst (decoy_stage sample_generator [] (sample_world 0))))) = 6 \<and>
   height (setDimension (- 100) 300 sample_generator) * width (setDimension (- 100) 300 sample_generator)
     div 10000 = - 3 \<and>
   decoy_stage (setDimension (- 100) 300 sample_generator) [] (sample_world 0) =
     (([], Some RangeError), sample_world 0)"
proof -
  have neg: "0 < decoy_opacity (decoy (setDimension (- 100) 300 sample_generator))"
    "height (setDimension (- 100) 300 sample_generator) * width (setDimension (- 100) 300 sample_generator)
       div 10000 = - 3"
    by (simp_all add: setDimension_def sample_generator_def sample_decoy_def)
  show ?thesis
    using decoy_glyph_count [OF sample_decoy_facts(1), of "[]" "sample_world 0"]
      decoy_glyph_count [OF neg(1), of "[]" "sample_world 0"] sample_decoy_facts neg
    by simp
qed

text \<open>
  The claim as stated fails on the default canvas: 100 by 300 gives 3 bytes and 6 glyphs.
\<close>

theorem decoy_glyph_count_counterexample:
  "0 < decoy_opacity (decoy sample_generator) \<and>
   length (filter is_PrintText (fst (fst (decoy_stage sample_generator [] (sample_world 0))))) = 6 \<and>
   int (length (filter is_PrintText (fst (fst (decoy_stage sample_generator [] (sample_world 0)))))) \<noteq>
     height sample_generator * width sample_generator div 10000"
proof -
  have nf: "\<not> decoy_fails sample_generator"
    by (simp add: decoy_fails_def decoyTextCount_def sample_decoy_facts)
  have "filter is_PrintText (fst (fst (decoy_stage sample_generator [] (sample_world 0)))) =
          decoy_glyphs sample_generator (entropy (sample_world 0)) (math_random (sample_world 0))"
    using nf sample_decoy_facts(1) by (simp add: decoy_stage_eq decoy_calls_def filter_PrintText_decoy_glyphs)
  then have "length (filter is_PrintText (fst (fst (decoy_stage sample_generator [] (sample_world 0))))) = 6"
    by (simp add: length_decoy_glyphs decoyTextCount_def sample_decoy_facts)
  then show ?thesis by (simp add: sample_decoy_facts)
qed

section \<open>setCaptcha\<close>

text \<open>
  With a non-empty \<open>text\<close> field, \<open>setCaptcha\<close> stores the text and sets \<open>characters\<close>
  to its length, whatever the other fields of the argument are.
\<close>

lemma setCaptcha_text_characters:
  assumes "set_text options = Some t" and "t \<noteq> []"
  shows "characters (fst (setCaptcha options this w)) (snd (setCaptcha options this w)) = int (length t) \<and>
         get_text (fst (setCaptcha options this w)) (snd (setCaptcha options this w)) = t"
  using assms
  by (simp add: setCaptcha_def truthy_string_def characters_def get_text_def merge_captcha_def
      override_def Let_def)

lemma setCaptcha_hello:
  "characters (fst (setCaptcha (text_only ''HELLO'') sample_generator (sample_world 0)))
              (snd (setCaptcha (text_only ''HELLO'') sample_generator (sample_world 0))) = 5 \<and>
   get_text (fst (setCaptcha (text_only ''HELLO'') sample_generator (sample_world 0)))
            (snd (setCaptcha (text_only ''HELLO'') sample_generator (sample_world 0))) = ''HELLO''"
proof -
  have a: "set_text (text_only ''HELLO'') = Some ''HELLO''" by (simp add: text_only_def)
  have b: "''HELLO'' \<noteq> []" by simp
  show ?thesis
    using setCaptcha_text_characters [OF a b, of sample_generator "sample_world 0"] by simp
qed

text \<open>
  With an empty \<open>text\<close> field the guard of line 94 (the truthiness of \<^verbatim>\<open>options.text\<close>) is
  false: the empty text is stored and \<open>characters\<close> is what the merge leaves, the
  \<open>characters\<close> field of the argument if there is one and the previous count otherwise.
\<close>

lemma setCaptcha_empty_text:
  assumes "set_text options = Some []"
  shows "characters (fst (setCaptcha options this w)) (snd (setCaptcha options this w)) =
           override (characters this w) (set_characters options) \<and>
         get_text (fst (setCaptcha options this w)) (snd (setCaptcha options this w)) = []"
  using assms
  by (simp add: setCaptcha_def truthy_string_def characters_def get_text_def merge_captcha_def
      override_def Let_def)

text \<open>
  C3. The claim: after \<open>setCaptcha options\<close> with a \<open>text\<close> field, \<open>characters\<close> is the
  length of that text. For \<^verbatim>\<open>setCaptcha({text: ""})\<close> on a generator with 6 characters the
  stored text is empty and \<open>characters\<close> is still 6, not 0.
\<close>

theorem setCaptcha_empty_text_keeps_characters:
  "set_text (text_only []) = Some [] \<and>
   characters (fst (setCaptcha (text_only []) sample_generator (sample_world 0)))
              (snd (setCaptcha (text_only []) sample_generator (sample_world 0))) = 6 \<and>
   get_text (fst (setCaptcha (text_only []) sample_generator (sample_world 0)))
            (snd (setCaptcha (text_only []) sample_generator (sample_world 0))) = [] \<and>
   characters (fst (setCaptcha (text_only []) sample_generator (sample_world 0)))
              (snd (setCaptcha (text_only []) sample_generator (sample_world 0))) \<noteq> int (length ([] :: string))"
  by (simp add: setCaptcha_def truthy_string_def characters_def get_text_def merge_captcha_def
      override_def Let_def text_only_def sample_generator_def sample_world_def module_init_def
      sample_captcha_def)

section \<open>Sharing of the default captcha group\<close>

lemma two_texts_first: "random_text (map two_texts_entropy [0..<32]) 6 = ''ABABAB''"
  by code_simp

lemma two_texts_second: "random_text (map (\<lambda>i. two_texts_entropy (i + 32)) [0..<32]) 6 = ''CDCDCD''"
  by code_simp

text \<open>
  C4. The claim: constructing a second generator leaves the text of the first
  unchanged. Both generators hold the same object \<^verbatim>\<open>defaultCaptchaOptions\<close>, and the
  second constructor overwrites its \<^verbatim>\<open>text\<close>: with 32 bytes \<open>0xAB\<close> followed by 32 bytes
  \<open>0xCD\<close>, the text of the first generator is \<open>ABABAB\<close> before the second construction
  and \<open>CDCDCD\<close> after it.
\<close>

theorem second_constructor_changes_first_text:
  "\<exists>g1 w1 g2 w2.
     CaptchaGenerator sample_trace sample_decoy no_options
       (module_init sample_captcha two_texts_entropy (\<lambda>i. 1 / 2)) = Inr (g1, w1) \<and>
     CaptchaGenerator sample_trace sample_decoy no_options w1 = Inr (g2, w2) \<and>
     get_text g1 w1 = ''ABABAB'' \<and> get_text g1 w2 = ''CDCDCD''"
  unfolding CaptchaGenerator_eq
  by (simp add: module_init_def sample_captcha_def get_text_def two_texts_first two_texts_second)

section \<open>generate leaves the text alone\<close>

text \<open>
  C9. \<open>generate\<close> never writes the store of captcha groups: the \<open>text\<close> accessor returns
  the same string after one call, and after any number \<open>k\<close> of consecutive calls, as
  before, whether the calls complete or throw.
\<close>

theorem generate_keeps_text:
  "get_text this (snd (generate resolveImage this w)) = get_text this w \<and>
   get_text this (generate_times resolveImage k this w) = get_text this w \<and>
   captcha_heap (generate_times resolveImage k this w) = captcha_heap w"
proof (intro conjI)
  show "get_text this (snd (generate resolveImage this w)) = get_text this w"
    unfolding get_text_def by (simp only: generate_heap)
  show heap: "captcha_heap (generate_times resolveImage k this w) = captcha_heap w"
  proof (induction k arbitrary: w)
    case 0
    show ?case by simp
  next
    case (Suc k)
    have "captcha_heap (generate_times resolveImage (Suc k) this w) =
            captcha_heap (snd (generate resolveImage this w))"
      by (simp add: Suc.IH)
    then show ?case by (simp only: generate_heap)
  qed
  then show "get_text this (generate_times resolveImage k this w) = get_text this w"
    unfolding get_text_def by simp
qed

section \<open>Order of the stages\<close>

lemma background_calls_kind: "list_all is_PrintImage (background_calls resolveImage this)"
  by (simp add: background_calls_def split: option.splits)

lemma decoy_calls_kind:
  "list_all (\<lambda>op. \<not> is_PrintImage op \<and> \<not> is_path_op op) (decoy_calls this e r)"
  by (auto simp: decoy_calls_def decoy_glyphs_def Let_def list_all_iff)

lemma trace_calls_kind:
  "list_all (\<lambda>op. \<not> is_PrintImage op \<and> \<not> is_PrintText op) (trace_calls this coordinates)"
  by (auto simp: trace_calls_def list_all_iff split: list.splits)

lemma captcha_calls_kind:
  "list_all (\<lambda>op. \<not> is_PrintImage op \<and> \<not> is_path_op op) (captcha_calls c coordinates)"
  by (auto simp: captcha_calls_def list_all_iff)

text \<open>
  C7. The calls \<open>generate\<close> issues are, in this order: the creation of the canvas, the
  background blit (one \<open>PrintImage\<close>, if a background is set), the calls of the decoy
  stage, the calls of the trace stage, the calls of the captcha stage and \<open>ToBuffer\<close>;
  a stage that throws ends the list. The blit is the only \<open>PrintImage\<close>, the decoy and
  captcha stages issue no path call, the trace stage no text-draw call.
\<close>

theorem generate_draw_order:
  "fst (fst (generate resolveImage this w)) =
     [NewCanvas (width this) (height this), SetTextBaseline ''middle'', SetLineJoin ''miter''] @
     background_calls resolveImage this @
     (if background_fails resolveImage this then []
      else decoy_calls this (entropy w)
             (snd (layout (width this) (height this) (characters this w) (math_random w))) @
        (if decoy_fails this then []
         else trace_calls this (fst (layout (width this) (height this) (characters this w) (math_random w))) @
           (if trace_fails this (fst (layout (width this) (height this) (characters this w) (math_random w))) then []
            else captcha_calls (captcha_heap w (captcha this))
                   (fst (layout (width this) (height this) (characters this w) (math_random w))) @
                 [ToBuffer]))) \<and>
   list_all is_PrintImage (background_calls resolveImage this) \<and>
   list_all (\<lambda>op. \<not> is_PrintImage op \<and> \<not> is_path_op op) (decoy_calls this e r) \<and>
   list_all (\<lambda>op. \<not> is_PrintImage op \<and> \<not> is_PrintText op) (trace_calls this coordinates) \<and>
   list_all (\<lambda>op. \<not> is_PrintImage op \<and> \<not> is_path_op op) (captcha_calls c coordinates)"
proof (intro conjI)
  show "list_all is_PrintImage (background_calls resolveImage this)"
    by (rule background_calls_kind)
  show "list_all (\<lambda>op. \<not> is_PrintImage op \<and> \<not> is_path_op op) (decoy_calls this e r)"
    by (rule decoy_calls_kind)
  show "list_all (\<lambda>op. \<not> is_PrintImage op \<and> \<not> is_PrintText op) (trace_calls this coordinates)"
    by (rule trace_calls_kind)
  show "list_all (\<lambda>op. \<not> is_PrintImage op \<and> \<not> is_path_op op) (captcha_calls c coordinates)"
    by (rule captcha_calls_kind)
qed (rule generate_calls_eq)

lemma sample_hex: "toString_hex [171, 171, 171] = ''ababab''"
  by code_simp

theorem generate_draw_order_witness:
  "fst (fst (generate no_image sample_generator (sample_world 171))) =
     [NewCanvas 300 100, SetTextBaseline ''middle'', SetLineJoin ''miter'',
      SetTextFont 20 ''Sans'', SetGlobalAlpha (1 / 2), SetColor ''#646566'',
      PrintText (Some CHR ''a'') 150 50, PrintText (Some CHR ''b'') 150 50,
      PrintText (Some CHR ''a'') 150 50, PrintText (Some CHR ''b'') 150 50,
      PrintText (Some CHR ''a'') 150 50, PrintText (Some CHR ''b'') 150 50,
      SetStroke ''#32cf7e'', SetGlobalAlpha 1, BeginPath, MoveTo 10 50, SetStrokeWidth 3,
      LineTo 60 50, LineTo (7740561859543041 / 70368744177664) 50, LineTo 160 50, LineTo 210 50, LineTo 260 50, Stroke,
      SetTextFont 40 ''Sans'', SetGlobalAlpha 1, SetColor ''#32cf7e'',
      PrintText None 10 50, PrintText None 60 50, PrintText None (7740561859543041 / 70368744177664) 50,
      PrintText None 160 50, PrintText None 210 50, PrintText None 260 50,
      ToBuffer]"
proof -
  have ch: "characters sample_generator (sample_world 171) = 6"
    by (simp add: characters_def sample_world_def module_init_def sample_captcha_def)
  have dims: "width sample_generator = 300" "height sample_generator = 100"
    by (simp_all add: sample_generator_def)
  have bg: "background_calls no_image sample_generator = []" "\<not> background_fails no_image sample_generator"
    by (simp_all add: background_calls_def background_fails_def sample_generator_def truthy_image_def)
  have df: "\<not> decoy_fails sample_generator"
    by (simp add: decoy_fails_def decoyTextCount_def sample_generator_def)
  have dcalls: "decoy_calls sample_generator (\<lambda>i. 171) (\<lambda>j. 1 / 2) =
      [SetTextFont 20 ''Sans'', SetGlobalAlpha (1 / 2), SetColor ''#646566'',
       PrintText (Some CHR ''a'') 150 50, PrintText (Some CHR ''b'') 150 50,
       PrintText (Some CHR ''a'') 150 50, PrintText (Some CHR ''b'') 150 50,
       PrintText (Some CHR ''a'') 150 50, PrintText (Some CHR ''b'') 150 50]"
    using df
    by (simp add: decoy_calls_def decoy_glyphs_def decoyTextCount_def dims sample_hex Let_def upt_rec
          sample_getRandom)
       (simp add: sample_generator_def sample_decoy_def)
  have tcalls: "trace_calls sample_generator [(10, 50), (60, 50), (7740561859543041 / 70368744177664, 50), (160, 50), (210, 50), (260, 50)] =
      [SetStroke ''#32cf7e'', SetGlobalAlpha 1, BeginPath, MoveTo 10 50, SetStrokeWidth 3,
       LineTo 60 50, LineTo (7740561859543041 / 70368744177664) 50, LineTo 160 50, LineTo 210 50, LineTo 260 50, Stroke]"
    by (simp add: trace_calls_def sample_generator_def sample_trace_def)
  have tf: "\<not> trace_fails sample_generator [(10, 50), (60, 50), (7740561859543041 / 70368744177664, 50), (160, 50), (210, 50), (260, 50)]"
    by (simp add: trace_fails_def)
  have ccalls: "captcha_calls sample_captcha [(10, 50), (60, 50), (7740561859543041 / 70368744177664, 50), (160, 50), (210, 50), (260, 50)] =
      [SetTextFont 40 ''Sans'', SetGlobalAlpha 1, SetColor ''#32cf7e'',
       PrintText None 10 50, PrintText None 60 50, PrintText None (7740561859543041 / 70368744177664) 50,
       PrintText None 160 50, PrintText None 210 50, PrintText None 260 50]"
    by (simp add: captcha_calls_def sample_captcha_def char_at_def upt_rec)
  have w: "entropy (sample_world 171) = (\<lambda>i. 171)" "math_random (sample_world 171) = (\<lambda>i. 1 / 2)"
    "captcha_heap (sample_world 171) (captcha sample_generator) = sample_captcha"
    by (simp_all add: sample_world_def module_init_def)
  have lay: "layout 300 100 6 (\<lambda>i. 1 / 2) =
      ([(10, 50), (60, 50), (7740561859543041 / 70368744177664, 50), (160, 50), (210, 50), (260, 50)], \<lambda>j. 1 / 2)"
    by (simp add: layout_eq upt_rec sample_slots sample_getRandom)
  show ?thesis
    using generate_draw_order [of no_image sample_generator "sample_world 171"]
    by (simp add: ch dims bg df dcalls tcalls tf ccalls w lay)
qed

section \<open>Opacity 0 switches a stage off\<close>

lemma background_calls_no_path: "list_all (\<lambda>op. \<not> is_path_op op) (background_calls resolveImage this)"
  by (auto simp: background_calls_def split: option.splits)

lemma decoy_calls_no_path: "list_all (\<lambda>op. \<not> is_path_op op) (decoy_calls this e r)"
  by (auto simp: decoy_calls_def decoy_glyphs_def Let_def list_all_iff)

lemma captcha_calls_no_path: "list_all (\<lambda>op. \<not> is_path_op op) (captcha_calls c coordinates)"
  by (auto simp: captcha_calls_def list_all_iff)

lemma background_calls_no_PrintText:
  "list_all (\<lambda>op. \<not> is_PrintText op) (background_calls resolveImage this)"
  by (auto simp: background_calls_def split: option.splits)

lemma trace_calls_no_PrintText: "list_all (\<lambda>op. \<not> is_PrintText op) (trace_calls this coordinates)"
  by (auto simp: trace_calls_def list_all_iff split: list.splits)

text \<open>
  C8. A stage whose opacity is 0 issues no call at all (and draws no random number).
  In the calls of a whole \<open>generate\<close>: with trace opacity 0 there is no path or stroke
  call; with decoy opacity 0 the only text-draw calls are those of the captcha stage;
  with decoy and captcha opacity 0 there is no text-draw call.
\<close>

theorem zero_opacity_skips_stage:
  "(decoy_opacity (decoy this) = 0 \<longrightarrow> decoy_stage this canvas w = ((canvas, None), w)) \<and>
   (trace_opacity (trace this) = 0 \<longrightarrow> trace_stage this coordinates canvas = (canvas, None)) \<and>
   (captcha_opacity c = 0 \<longrightarrow> captcha_stage c coordinates canvas = (canvas, None)) \<and>
   (trace_opacity (trace this) = 0 \<longrightarrow>
      list_all (\<lambda>op. \<not> is_path_op op) (fst (fst (generate resolveImage this w)))) \<and>
   (decoy_opacity (decoy this) = 0 \<and> captcha_opacity (captcha_heap w (captcha this)) = 0 \<longrightarrow>
      list_all (\<lambda>op. \<not> is_PrintText op) (fst (fst (generate resolveImage this w)))) \<and>
   (decoy_opacity (decoy this) = 0 \<longrightarrow>
      filter is_PrintText (fst (fst (generate resolveImage this w))) =
        (if background_fails resolveImage this \<or>
            trace_fails this (fst (layout (width this) (height this) (characters this w) (math_random w)))
         then []
         else filter is_PrintText
                (captcha_calls (captcha_heap w (captcha this))
                   (fst (layout (width this) (height this) (characters this w) (math_random w))))))"
proof (intro conjI impI)
  assume "decoy_opacity (decoy this) = 0"
  then show "decoy_stage this canvas w = ((canvas, None), w)" by (simp add: decoy_stage_def)
next
  assume "trace_opacity (trace this) = 0"
  then show "trace_stage this coordinates canvas = (canvas, None)" by (simp add: trace_stage_def)
next
  assume "captcha_opacity c = 0"
  then show "captcha_stage c coordinates canvas = (canvas, None)" by (simp add: captcha_stage_def)
next
  assume "trace_opacity (trace this) = 0"
  then have "trace_calls this cs = []" for cs by (simp add: trace_calls_def)
  then show "list_all (\<lambda>op. \<not> is_path_op op) (fst (fst (generate resolveImage this w)))"
    by (simp add: generate_calls_eq background_calls_no_path decoy_calls_no_path captcha_calls_no_path)
next
  assume "decoy_opacity (decoy this) = 0 \<and> captcha_opacity (captcha_heap w (captcha this)) = 0"
  then have "decoy_calls this e r = []" "captcha_calls (captcha_heap w (captcha this)) cs = []" for e r cs
    by (simp_all add: decoy_calls_def captcha_calls_def)
  then show "list_all (\<lambda>op. \<not> is_PrintText op) (fst (fst (generate resolveImage this w)))"
    by (simp add: generate_calls_eq background_calls_no_PrintText trace_calls_no_PrintText)
next
  assume z: "decoy_opacity (decoy this) = 0"
  then have d: "decoy_calls this e r = []" "\<not> decoy_fails this" for e r
    by (simp_all add: decoy_calls_def decoy_fails_def)
  have f: "filter is_PrintText xs = []" if "list_all (\<lambda>op. \<not> is_PrintText op) xs" for xs
    using that by (simp add: list_all_iff filter_empty_conv)
  show "filter is_PrintText (fst (fst (generate resolveImage this w))) =
        (if background_fails resolveImage this \<or>
            trace_fails this (fst (layout (width this) (height this) (characters this w) (math_random w)))
         then []
         else filter is_PrintText
                (captcha_calls (captcha_heap w (captcha this))
                   (fst (layout (width this) (height this) (characters this w) (math_random w)))))"
    by (simp add: generate_calls_eq d f [OF background_calls_no_PrintText]
        f [OF trace_calls_no_PrintText])
qed

theorem zero_opacity_skips_stage_witness:
  "decoy_opacity (decoy muted_generator) = 0 \<and> trace_opacity (trace muted_generator) = 0 \<and>
   captcha_opacity muted_captcha = 0 \<and>
   captcha_heap (module_init muted_captcha (\<lambda>i. 0) (\<lambda>i. 1 / 2)) (captcha muted_generator) = muted_captcha \<and>
   decoy_stage muted_generator [] (module_init muted_captcha (\<lambda>i. 0) (\<lambda>i. 1 / 2)) =
     (([], None), module_init muted_captcha (\<lambda>i. 0) (\<lambda>i. 1 / 2)) \<and>
   trace_stage muted_generator [(10, 50)] [] = ([], None) \<and>
   captcha_stage muted_captcha [(10, 50)] [] = ([], None) \<and>
   list_all (\<lambda>op. \<not> is_path_op op)
     (fst (fst (generate no_image muted_generator (module_init muted_captcha (\<lambda>i. 0) (\<lambda>i. 1 / 2))))) \<and>
   list_all (\<lambda>op. \<not> is_PrintText op)
     (fst (fst (generate no_image muted_generator (module_init muted_captcha (\<lambda>i. 0) (\<lambda>i. 1 / 2)))))"
proof -
  have a: "decoy_opacity (decoy muted_generator) = 0" "trace_opacity (trace muted_generator) = 0"
    by (simp_all add: muted_generator_def)
  have b: "captcha_opacity muted_captcha = 0" by (simp add: muted_captcha_def)
  have c: "captcha_heap (module_init muted_captcha (\<lambda>i. 0) (\<lambda>i. 1 / 2)) (captcha muted_generator) = muted_captcha"
    by (simp add: module_init_def)
  show ?thesis
    using zero_opacity_skips_stage [of muted_generator "[]" "module_init muted_captcha (\<lambda>i. 0) (\<lambda>i. 1 / 2)"
        "[(10, 50)]" muted_captcha no_image] a b c
    by simp
qed

section \<open>Reads of the coordinate list in the trace stage\<close>

lemma layout_length: "length (fst (layout W H n r)) = nat n"
  by (simp add: layout_eq)

text \<open>
  C10. With \<open>characters \<ge> 1\<close> the coordinate list is not empty, every read of it in the
  trace stage is in bounds and \<open>generate\<close> never throws \<open>TypeError\<close>. With
  \<open>characters = 0\<close> and trace opacity above 0 the read of \<^verbatim>\<open>coordinates[0][0]\<close> is out of
  bounds: the trace stage throws \<open>TypeError\<close>, and so does \<open>generate\<close> when the earlier
  stages complete.
\<close>

theorem trace_reads_in_bounds:
  "(1 \<le> n \<longrightarrow>
      coordinate_at (fst (layout W H n r)) 0 \<noteq> Inl TypeError \<and>
      snd (trace_stage this (fst (layout W H n r)) canvas) = None) \<and>
   (1 \<le> characters this w \<longrightarrow> snd (fst (generate resolveImage this w)) \<noteq> Some TypeError) \<and>
   (0 < trace_opacity (trace this) \<longrightarrow>
      coordinate_at (fst (layout W H 0 r)) 0 = Inl TypeError \<and>
      snd (trace_stage this (fst (layout W H 0 r)) canvas) = Some TypeError) \<and>
   (characters this w = 0 \<and> 0 < trace_opacity (trace this) \<and>
    \<not> background_fails resolveImage this \<and> \<not> decoy_fails this \<longrightarrow>
      snd (fst (generate resolveImage this w)) = Some TypeError)"
proof (intro conjI impI)
  assume n: "1 \<le> n"
  then have ne: "fst (layout W H n r) \<noteq> []" using layout_length [of W H n r] by auto
  then show "coordinate_at (fst (layout W H n r)) 0 \<noteq> Inl TypeError"
    by (simp add: coordinate_at_def)
  show "snd (trace_stage this (fst (layout W H n r)) canvas) = None"
    using ne by (simp add: trace_stage_eq trace_fails_def)
next
  assume "1 \<le> characters this w"
  then have "fst (layout (width this) (height this) (characters this w) (math_random w)) \<noteq> []"
    using layout_length [of "width this" "height this" "characters this w" "math_random w"] by auto
  then show "snd (fst (generate resolveImage this w)) \<noteq> Some TypeError"
    by (simp add: generate_outcome_eq trace_fails_def)
next
  assume "0 < trace_opacity (trace this)"
  have e: "fst (layout W H 0 r) = []" using layout_length [of W H 0 r] by simp
  show "coordinate_at (fst (layout W H 0 r)) 0 = Inl TypeError"
    by (simp add: e coordinate_at_def)
  show "snd (trace_stage this (fst (layout W H 0 r)) canvas) = Some TypeError"
    using \<open>0 < trace_opacity (trace this)\<close> by (simp add: e trace_stage_eq trace_fails_def)
next
  assume a: "characters this w = 0 \<and> 0 < trace_opacity (trace this) \<and>
    \<not> background_fails resolveImage this \<and> \<not> decoy_fails this"
  then have "fst (layout (width this) (height this) (characters this w) (math_random w)) = []"
    using layout_length [of "width this" "height this" 0 "math_random w"] by simp
  then show "snd (fst (generate resolveImage this w)) = Some TypeError"
    using a by (simp add: generate_outcome_eq trace_fails_def)
qed

theorem trace_reads_in_bounds_witness:
  "(1 :: int) \<le> 6 \<and>
   coordinate_at (fst (layout 300 100 6 (\<lambda>i. 1 / 2))) 0 = Inr (10, 50) \<and>
   snd (trace_stage sample_generator (fst (layout 300 100 6 (\<lambda>i. 1 / 2))) []) = None \<and>
   characters sample_generator (sample_world 0) = 6 \<and>
   snd (fst (generate no_image sample_generator (sample_world 0))) = None \<and>
   0 < trace_opacity (trace sample_generator) \<and>
   snd (trace_stage sample_generator (fst (layout 300 100 0 (\<lambda>i. 1 / 2))) []) = Some TypeError \<and>
   characters sample_generator empty_world = 0 \<and>
   \<not> background_fails no_image sample_generator \<and> \<not> decoy_fails sample_generator \<and>
   snd (fst (generate no_image sample_generator empty_world)) = Some TypeError"
proof -
  have n: "(1 :: int) \<le> 6" by simp
  have c0: "coordinate_at (fst (layout 300 100 6 (\<lambda>i. 1 / 2))) 0 = Inr (10, 50)"
    by (simp add: sample_layout coordinate_at_def)
  have ch: "characters sample_generator (sample_world 0) = 6"
    by (simp add: characters_def sample_world_def module_init_def sample_captcha_def)
  have ch0: "characters sample_generator empty_world = 0"
    by (simp add: characters_def empty_world_def module_init_def)
  have tr: "0 < trace_opacity (trace sample_generator)"
    by (simp add: sample_generator_def sample_trace_def)
  have bg: "\<not> background_fails no_image sample_generator"
    by (simp add: background_fails_def sample_generator_def truthy_image_def)
  have dc: "\<not> decoy_fails sample_generator"
    by (simp add: decoy_fails_def decoyTextCount_def sample_generator_def)
  have ok: "snd (fst (generate no_image sample_generator (sample_world 0))) = None"
    using ch bg dc by (simp add: generate_outcome_eq trace_fails_def layout_eq upt_rec sample_generator_def)
  show ?thesis
    using trace_reads_in_bounds [of 6 300 100 "\<lambda>i. 1 / 2" sample_generator "[]" "sample_world 0" no_image]
      trace_reads_in_bounds [of 6 300 100 "\<lambda>i. 1 / 2" sample_generator "[]" empty_world no_image]
      n c0 ch ch0 tr bg dc ok
    by simp
qed

end
